theory Spec2Isabelle
  imports Main "HOL-Library.Word" "HOL-Library.Sublist" "HOL-Library.Countable"
begin

chapter \<open>The Loggly client\<close>

text \<open>
  A model of the class \<open>LogglyClient\<close> of \<open>src/LogglyClient.ts\<close>: its state as a record, its
  methods as functions that take the state and return the new one, every exception as a
  value. An asynchronous method is given in two parts, split at its first \<open>await\<close>, so that
  what it does before it suspends can be told from what it does when it is resumed; and it
  is given run to its end against a transport that decides what each call of \<open>fetch\<close>
  settles with.
\<close>

section \<open>JavaScript strings and errors\<close>

text \<open>
  A JavaScript string is a sequence of UTF-16 code units. \<open>length\<close>, \<open>slice\<close>, \<open>includes\<close> and
  \<open>join\<close> count and cut code units; \<open>Buffer.byteLength\<close> counts the bytes of the UTF-8
  encoding. String literals of the source are written \<open>lit ''...''\<close>.
\<close>

type_synonym code_unit = "16 word"
type_synonym jstring = "code_unit list"

definition lit :: "string \<Rightarrow> jstring" where
  "lit s = map of_char s"

text \<open>\<open>haystack.includes(needle)\<close>: the needle occurs as a contiguous run.\<close>

fun js_includes :: "'a list \<Rightarrow> 'a list \<Rightarrow> bool" where
  "js_includes [] needle = (needle = [])"
| "js_includes (h # hs) needle = (prefix needle (h # hs) \<or> js_includes hs needle)"

text \<open>\<open>parts.join(sep)\<close>.\<close>

fun join :: "jstring \<Rightarrow> jstring list \<Rightarrow> jstring" where
  "join sep [] = []"
| "join sep [x] = x"
| "join sep (x # y # ys) = x @ sep @ join sep (y # ys)"

text \<open>
  \<open>Buffer.byteLength(message)\<close> with the default encoding UTF-8: one byte below U+0080, two
  below U+0800, four for a surrogate pair, three for every other code unit (a lone surrogate
  is encoded as U+FFFD).
\<close>

definition is_high_surrogate :: "code_unit \<Rightarrow> bool" where
  "is_high_surrogate c = (0xD800 \<le> c \<and> c \<le> 0xDBFF)"

definition is_low_surrogate :: "code_unit \<Rightarrow> bool" where
  "is_low_surrogate c = (0xDC00 \<le> c \<and> c \<le> 0xDFFF)"

fun byteLength :: "jstring \<Rightarrow> nat" where
  "byteLength [] = 0"
| "byteLength [c] = (if c < 0x80 then 1 else if c < 0x800 then 2 else 3)"
| "byteLength (c # d # cs) =
     (if c < 0x80 then 1 + byteLength (d # cs)
      else if c < 0x800 then 2 + byteLength (d # cs)
      else if is_high_surrogate c \<and> is_low_surrogate d then 4 + byteLength cs
      else 3 + byteLength (d # cs))"

text \<open>The decimal rendering of a non-negative integer, as in \<open>`${response.status}`\<close>.\<close>

definition digit_char :: "nat \<Rightarrow> char" where
  "digit_char d = ''0123456789'' ! d"

function decimal :: "nat \<Rightarrow> string" where
  "decimal n = (if n < 10 then [digit_char n] else decimal (n div 10) @ [digit_char (n mod 10)])"
  by pat_completeness auto
termination
  by (relation "measure id") auto

declare decimal.simps [simp del]

text \<open>
  A thrown value: the constructor name (\<open>Error\<close>, \<open>TypeError\<close>, \<open>AbortError\<close>, ...) and the
  message. \<open>toString\<close> is \<open>Error.prototype.toString\<close>, which the source reaches through
  \<open>error.toString()\<close> and through the template literal \<open>`${error}`\<close>.
\<close>

datatype js_error = JsError (err_name: jstring) (err_message: jstring)

definition Error :: "jstring \<Rightarrow> js_error" where
  "Error msg = JsError (lit ''Error'') msg"

definition TypeError :: "jstring \<Rightarrow> js_error" where
  "TypeError msg = JsError (lit ''TypeError'') msg"

definition toString :: "js_error \<Rightarrow> jstring" where
  "toString e =
     (if err_name e = [] then err_message e
      else if err_message e = [] then err_name e
      else err_name e @ lit '': '' @ err_message e)"

section \<open>JavaScript numbers\<close>

text \<open>
  A JavaScript number: a finite value, one of the two infinities, or \<open>NaN\<close>. The finite values
  are taken as rationals and their arithmetic as exact; the lengths of arrays are the numbers
  \<open>of_length n\<close>. The comparisons are false as soon as one side is \<open>NaN\<close>, and a subtraction
  or a maximum with a \<open>NaN\<close> operand is \<open>NaN\<close>.
\<close>

datatype number = NaN | Neg_Infinity | Finite rat | Infinity

definition of_length :: "nat \<Rightarrow> number" where
  "of_length n = Finite (of_nat n)"

fun number_less :: "number \<Rightarrow> number \<Rightarrow> bool" where
  "number_less (Finite x) (Finite y) = (x < y)"
| "number_less NaN b = False"
| "number_less a NaN = False"
| "number_less Neg_Infinity b = (b \<noteq> Neg_Infinity)"
| "number_less a Infinity = (a \<noteq> Infinity)"
| "number_less a b = False"

definition number_le :: "number \<Rightarrow> number \<Rightarrow> bool" where
  "number_le a b = (number_less a b \<or> (a = b \<and> a \<noteq> NaN))"

fun number_minus :: "number \<Rightarrow> number \<Rightarrow> number" where
  "number_minus (Finite x) (Finite y) = Finite (x - y)"
| "number_minus NaN b = NaN"
| "number_minus a NaN = NaN"
| "number_minus Infinity Infinity = NaN"
| "number_minus Neg_Infinity Neg_Infinity = NaN"
| "number_minus Infinity b = Infinity"
| "number_minus Neg_Infinity b = Neg_Infinity"
| "number_minus a Infinity = Neg_Infinity"
| "number_minus a Neg_Infinity = Infinity"

definition Math_max :: "number \<Rightarrow> number \<Rightarrow> number" where
  "Math_max a b = (if a = NaN \<or> b = NaN then NaN else if number_less a b then b else a)"

text \<open>
  \<open>xs.slice(start)\<close> for a number \<open>start\<close>: a finite number is truncated towards zero, and a
  negative one counts from the end of the array; \<open>NaN\<close> counts as 0; from minus infinity the
  slice is the whole array, from plus infinity it is empty.
\<close>

definition to_integer :: "rat \<Rightarrow> int" where
  "to_integer x = (if x < 0 then \<lceil>x\<rceil> else \<lfloor>x\<rfloor>)"

fun slice_from :: "number \<Rightarrow> 'a list \<Rightarrow> 'a list" where
  "slice_from (Finite x) xs =
     (let k = to_integer x
      in if k < 0 then drop (nat (max (int (length xs) + k) 0)) xs else drop (nat k) xs)"
| "slice_from NaN xs = xs"
| "slice_from Neg_Infinity xs = xs"
| "slice_from Infinity xs = []"

section \<open>Configuration, transport and the client's state\<close>

text \<open>
  The buffer options. \<open>bo_size\<close> is the field \<open>size\<close>. Both fields are numbers, and
  \<open>validateConfig\<close> only rejects a missing one, zero and \<open>NaN\<close>: a fractional, a negative or
  an infinite size is a size the client can be given.
\<close>

record BufferOptions =
  bo_size :: number
  retriesInMilliSeconds :: number

record AuthOptions =
  username :: jstring
  password :: jstring

text \<open>
  \<open>this.config\<close> after the constructor has resolved the defaults: the fields with a default
  are plain values, the others stay optional. \<open>bufferOptions\<close> stays optional because the
  methods test it at run time.
\<close>

record LogglyConfig =
  token :: jstring
  subdomain :: jstring
  host :: jstring
  api :: jstring
  json :: bool
  useTagHeader :: bool
  isBulk :: bool
  bufferOptions :: "BufferOptions option"
  networkErrorsOnConsole :: bool
  tags :: "jstring list option"
  proxy :: "jstring option"
  auth :: "AuthOptions option"

record LogglyResponse =
  response :: jstring
  statusCode :: nat

text \<open>
  What one call of \<open>fetch\<close> settles with: the promise rejects (network failure, abort after
  the 30 s timeout), or it resolves with a status and \<open>response.text()\<close> then yields the body
  or rejects. The transport is a parameter of the model: \<open>T n\<close> is the outcome of the
  \<open>n\<close>-th call of \<open>fetch\<close> the process makes, counted from 0.
\<close>

datatype fetch_outcome = Rejects js_error | Responds nat "js_error + jstring"

type_synonym transport = "nat \<Rightarrow> fetch_outcome"

datatype header_value = Plain jstring | Basic_base64 jstring

record request =
  url :: jstring
  body :: jstring
  headers :: "(jstring \<times> header_value) list"

text \<open>The caller's callback is opaque; it is identified by a number.\<close>

type_synonym callback = nat

datatype console_level = Warn | Err | Log

datatype console_arg = Arg_string jstring | Arg_error js_error

datatype log_event = Log_body jstring | Log_response LogglyResponse

text \<open>
  The observable effects, in the order they happen: a call of \<open>fetch\<close>, the wait before a
  retry, \<open>this.emit('log', ...)\<close>, a call of the callback with its error and result (null and
  undefined are both \<open>None\<close>), console output, and the one-second timer that chains the next
  pass over the failed-logs buffer.
\<close>

datatype effect =
    Fetch request
  | Sleep nat
  | Emit_log log_event
  | Invoke callback "js_error option" "jstring option"
  | Console console_level jstring "console_arg list"
  | Set_timeout_retryFailedLogs nat

datatype timer = Timeout nat | Interval number

text \<open>
  The state: the private fields of \<open>LogglyClient\<close>, then what the client shares with the
  process: the two proxy variables of \<open>process.env\<close>, the number of \<open>fetch\<close> calls made so
  far, and the trace of effects.
\<close>

record world =
  config :: LogglyConfig
  batchQueue :: "jstring list"
  failedLogsBuffer :: "jstring list"
  batchTimer :: "timer option"
  bufferRetryTimer :: "timer option"
  isTokenValid :: bool
  eventId :: nat
  HTTPS_PROXY :: "jstring option"
  HTTP_PROXY :: "jstring option"
  fetches :: nat
  trace :: "effect list"

definition EVENT_SIZE :: nat where
  "EVENT_SIZE = 1000 * 1000"

definition maxRetries :: nat where
  "maxRetries = 5"

definition initialRetryDelay :: nat where
  "initialRetryDelay = 2000"

definition userAgent :: jstring where
  "userAgent = lit ''ts-loggly-bulk''"

definition emit :: "effect \<Rightarrow> world \<Rightarrow> world" where
  "emit e w = w\<lparr>trace := trace w @ [e]\<rparr>"

text \<open>Diagnostics that the source prints only under \<open>networkErrorsOnConsole\<close>.\<close>

definition diagnostic :: "console_level \<Rightarrow> jstring \<Rightarrow> console_arg list \<Rightarrow> world \<Rightarrow> world" where
  "diagnostic l msg args w =
     (if networkErrorsOnConsole (config w) then emit (Console l msg args) w else w)"

section \<open>Sending\<close>

text \<open>
  The constructor computes \<open>this.baseUrl\<close> once, from the configuration, and both are
  read-only; the model computes it where it is used.
\<close>

definition constructBaseUrl :: "LogglyConfig \<Rightarrow> jstring" where
  "constructBaseUrl c =
     (let endpoint = lit ''https://'' @ host c;
          path = (if isBulk c then lit ''bulk'' else lit ''inputs'')
      in endpoint @ lit ''/'' @ path @ lit ''/'' @ token c)"

definition or_empty :: "'a list option \<Rightarrow> 'a list" where
  "or_empty x = (case x of None \<Rightarrow> [] | Some xs \<Rightarrow> xs)"

text \<open>\<open>if (this.config.proxy)\<close>: a proxy that is present and not the empty string.\<close>

definition proxy_configured :: "LogglyConfig \<Rightarrow> bool" where
  "proxy_configured c = (case proxy c of None \<Rightarrow> False | Some p \<Rightarrow> p \<noteq> [])"

definition build_request :: "LogglyConfig \<Rightarrow> jstring \<Rightarrow> jstring list option \<Rightarrow> request" where
  "build_request c data additionalTags =
     (let tgs = or_empty (tags c) @ or_empty additionalTags;
          u = constructBaseUrl c @
              (if \<not> useTagHeader c \<and> tgs \<noteq> [] then lit ''/tag/'' @ join (lit '','') tgs else []);
          hs = [(lit ''accept'', Plain (lit ''*/*'')),
                (lit ''Content-Type'',
                   Plain (if json c then lit ''application/json'' else lit ''text/plain'')),
                (lit ''User-Agent'', Plain userAgent)]
               @ (if useTagHeader c \<and> tgs \<noteq> []
                  then [(lit ''X-LOGGLY-TAG'', Plain (join (lit '','') tgs))] else [])
               @ (case auth c of None \<Rightarrow> []
                  | Some a \<Rightarrow> [(lit ''authorization'',
                                  Basic_base64 (username a @ lit '':'' @ password a))])
      in \<lparr>url = u, body = data, headers = hs\<rparr>)"

text \<open>
  \<open>sendToLoggly\<close> up to its \<open>await fetch(url, fetchOptions)\<close>: the request is built, the proxy
  variables are set, \<open>fetch\<close> is called. Nothing else of the program runs in between.
\<close>

definition sendToLoggly_begin :: "world \<Rightarrow> jstring \<Rightarrow> jstring list option \<Rightarrow> world" where
  "sendToLoggly_begin w data additionalTags =
     (let w1 = (if proxy_configured (config w)
                then w\<lparr>HTTPS_PROXY := proxy (config w), HTTP_PROXY := proxy (config w)\<rparr>
                else w)
      in (emit (Fetch (build_request (config w) data additionalTags)) w1)
           \<lparr>fetches := Suc (fetches w)\<rparr>)"

text \<open>\<open>sendToLoggly\<close> from the moment the awaited \<open>fetch\<close> has settled.\<close>

definition sendToLoggly_end :: "world \<Rightarrow> fetch_outcome \<Rightarrow> (js_error + LogglyResponse) \<times> world" where
  "sendToLoggly_end w outcome =
     (case outcome of
        Rejects e \<Rightarrow> (Inl e, w)
      | Responds status text \<Rightarrow>
          if status = 401 \<or> status = 403
          then (Inl (Error (lit ''Authentication failed - invalid token'')),
                w\<lparr>isTokenValid := False\<rparr>)
          else if \<not> (200 \<le> status \<and> status \<le> 299)
          then (Inl (Error (lit ''HTTP Error: '' @ lit (decimal status))), w)
          else
            let w1 = (if proxy_configured (config w)
                      then w\<lparr>HTTPS_PROXY := None, HTTP_PROXY := None\<rparr> else w)
            in (case text of
                  Inl e \<Rightarrow> (Inl e, w1)
                | Inr b \<Rightarrow> (Inr \<lparr>response = b, statusCode = status\<rparr>, w1)))"

definition sendToLoggly ::
  "transport \<Rightarrow> world \<Rightarrow> jstring \<Rightarrow> jstring list option \<Rightarrow> (js_error + LogglyResponse) \<times> world" where
  "sendToLoggly T w data additionalTags =
     sendToLoggly_end (sendToLoggly_begin w data additionalTags) (T (fetches w))"

definition retryableErrors :: "jstring list" where
  "retryableErrors =
     [lit ''ETIMEDOUT'', lit ''ECONNRESET'', lit ''ESOCKETTIMEDOUT'',
      lit ''ECONNABORTED'', lit ''ENETUNREACH'', lit ''EHOSTUNREACH'']"

definition isRetryableError :: "js_error \<Rightarrow> bool" where
  "isRetryableError error =
     (let errorString = toString error;
          hasRetryableCode = list_ex (\<lambda>code. js_includes errorString code) retryableErrors;
          isServerError = (js_includes errorString (lit ''status: 5'')
                           \<or> js_includes errorString (lit ''status: 429''))
      in hasRetryableCode \<or> isServerError)"

text \<open>\<open>`${eventId}`\<close> for the optional correlation id, and the test \<open>if (eventId ...)\<close>.\<close>

definition show_eventId :: "nat option \<Rightarrow> jstring" where
  "show_eventId e = (case e of None \<Rightarrow> lit ''undefined'' | Some n \<Rightarrow> lit (decimal n))"

definition truthy_id :: "nat option \<Rightarrow> bool" where
  "truthy_id e = (case e of None \<Rightarrow> False | Some n \<Rightarrow> n \<noteq> 0)"

text \<open>
  \<open>sendWithRetry\<close> while its \<open>await this.sendToLoggly(data, tags)\<close> is pending on the
  \<open>fetch\<close> numbered \<open>fid\<close>: what it does once that settles, retries included.
\<close>

function sendWithRetry_resume ::
  "transport \<Rightarrow> world \<Rightarrow> jstring \<Rightarrow> jstring list option \<Rightarrow> nat option \<Rightarrow> nat \<Rightarrow> nat \<Rightarrow> nat
     \<Rightarrow> (js_error + LogglyResponse) \<times> world" where
  "sendWithRetry_resume T w data tgs eid attempt delay fid =
     (case sendToLoggly_end w (T fid) of
        (Inr resp, w1) \<Rightarrow>
          (Inr resp,
           if truthy_id eid \<and> attempt > 1
           then diagnostic Log (lit ''Log #'' @ show_eventId eid @ lit '' sent successfully after ''
                                 @ lit (decimal attempt) @ lit '' attempts'') [] w1
           else w1)
      | (Inl err, w1) \<Rightarrow>
          if attempt \<ge> maxRetries
          then (Inl err,
                diagnostic Err (lit ''Failed log #'' @ show_eventId eid @ lit '' after ''
                                 @ lit (decimal attempt) @ lit '' retries:'')
                           [Arg_string (err_message err)] w1)
          else if \<not> isRetryableError err then (Inl err, w1)
          else
            let w2 = (if truthy_id eid
                      then diagnostic Log (lit ''Log #'' @ show_eventId eid @ lit '' - Retry attempt ''
                                            @ lit (decimal (attempt + 1)) @ lit '' in ''
                                            @ lit (decimal delay) @ lit ''ms'') [] w1
                      else w1);
                w3 = emit (Sleep delay) w2
            in sendWithRetry_resume T (sendToLoggly_begin w3 data tgs) data tgs eid
                 (attempt + 1) (delay * 2) (fetches w3))"
  by pat_completeness auto
termination
  by (relation "measure (\<lambda>(T, w, data, tgs, eid, attempt, delay, fid). maxRetries - attempt)") auto

declare sendWithRetry_resume.simps [simp del]

definition sendWithRetry ::
  "transport \<Rightarrow> world \<Rightarrow> jstring \<Rightarrow> jstring list option \<Rightarrow> nat option \<Rightarrow> nat \<Rightarrow> nat
     \<Rightarrow> (js_error + LogglyResponse) \<times> world" where
  "sendWithRetry T w data tgs eid attempt delay =
     sendWithRetry_resume T (sendToLoggly_begin w data tgs) data tgs eid attempt delay (fetches w)"

section \<open>Formatting and truncation\<close>

text \<open>
  The values a caller may log are JavaScript values, and how they convert to strings is
  the platform's business, not the client's. The model takes these conversions as a
  parameter over an arbitrary type \<open>'d\<close> of values: \<open>JSON.stringify(data)\<close>, which may
  throw; \<open>Array.isArray(data)\<close> with the array's elements; \<open>typeof data === 'object' &&
  data !== null\<close> with \<open>Object.entries(data)\<close>; and the string conversion of \<open>String(data)\<close>
  and of a template literal, which may throw.
\<close>

record 'd platform =
  JSON_stringify :: "'d \<Rightarrow> js_error + jstring"
  Array_isArray :: "'d \<Rightarrow> bool"
  elements :: "'d \<Rightarrow> 'd list"
  is_object :: "'d \<Rightarrow> bool"
  Object_entries :: "'d \<Rightarrow> (jstring \<times> 'd) list"
  String_of :: "'d \<Rightarrow> js_error + jstring"

text \<open>\<open>xs.map(f)\<close> where \<open>f\<close> may throw: the first exception, from left to right, ends it.\<close>

fun try_map :: "('a \<Rightarrow> 'e + 'b) \<Rightarrow> 'a list \<Rightarrow> 'e + 'b list" where
  "try_map f [] = Inr []"
| "try_map f (x # xs) =
     (case f x of
        Inl e \<Rightarrow> Inl e
      | Inr y \<Rightarrow> (case try_map f xs of Inl e \<Rightarrow> Inl e | Inr ys \<Rightarrow> Inr (y # ys)))"

definition circular_message :: jstring where
  "circular_message = lit (''Circular references detected in log data. '' @
     ''Please ensure your log data does not contain circular references.'')"

definition formatLogData :: "'d platform \<Rightarrow> LogglyConfig \<Rightarrow> 'd \<Rightarrow> js_error + jstring" where
  "formatLogData P c data =
     (if json c then
        (case JSON_stringify P data of
           Inr s \<Rightarrow> Inr s
         | Inl error \<Rightarrow>
             if err_name error = lit ''TypeError'' \<and> js_includes (err_message error) (lit ''circular'')
             then Inl (Error circular_message)
             else Inl error)
      else if is_object P data then
        (case try_map (\<lambda>(key, v). case String_of P v of
                                      Inl e \<Rightarrow> Inl e
                                    | Inr s \<Rightarrow> Inr (key @ lit ''='' @ s))
                      (Object_entries P data) of
           Inl e \<Rightarrow> Inl e
         | Inr parts \<Rightarrow> Inr (join (lit '','') parts))
      else String_of P data)"

definition newline :: jstring where
  "newline = lit [CHR 0x0A]"

text \<open>The formatting step of \<open>log\<close>: an array logged in bulk mode is formatted item by item.\<close>

definition format_payload :: "'d platform \<Rightarrow> LogglyConfig \<Rightarrow> 'd \<Rightarrow> js_error + jstring" where
  "format_payload P c data =
     (if isBulk c \<and> Array_isArray P data then
        (case try_map (formatLogData P c) (elements P data) of
           Inl e \<Rightarrow> Inl e
         | Inr items \<Rightarrow> Inr (join newline items))
      else formatLogData P c data)"

record truncation =
  message :: jstring
  isMessageTruncated :: bool

definition truncateLargeMessage :: "jstring \<Rightarrow> truncation" where
  "truncateLargeMessage msg =
     (let bytesLength = byteLength msg;
          truncated = (bytesLength > EVENT_SIZE)
      in if truncated then \<lparr>message = take EVENT_SIZE msg, isMessageTruncated = True\<rparr>
         else \<lparr>message = msg, isMessageTruncated = False\<rparr>)"

section \<open>The failed-logs buffer\<close>

definition addToFailedBuffer :: "world \<Rightarrow> jstring list \<Rightarrow> world" where
  "addToFailedBuffer w messages =
     (case bufferOptions (config w) of
        None \<Rightarrow> w
      | Some bo \<Rightarrow>
          let bufferSize = bo_size bo;
              buf = failedLogsBuffer w;
              (buf', messages') =
                (if number_less bufferSize (of_length (length buf + length messages)) then
                   let overflow = number_minus (of_length (length buf + length messages)) bufferSize
                   in if number_less (Finite 0) overflow \<and> number_le overflow (of_length (length buf))
                      then (slice_from overflow buf, messages)
                      else if number_less (of_length (length buf)) overflow
                      then ([], slice_from (Math_max (Finite 0)
                                  (number_minus (of_length (length messages)) bufferSize)) messages)
                      else (buf, messages)
                 else (buf, messages))
          in w\<lparr>failedLogsBuffer := buf' @ messages'\<rparr>)"

section \<open>Batches\<close>

text \<open>
  An asynchronous send that is suspended at its first \<open>await\<close>: the \<open>fetch\<close> numbered
  \<open>p_fetch\<close> has been called for \<open>sendWithRetry(p_data, p_tags, p_eventId)\<close> at attempt 1, and
  the owner says what runs when that send has settled: the continuation of \<open>sendBatch\<close> with
  its batch id and captured messages, or that of the immediate send of \<open>log\<close> with the
  caller's callback.
\<close>

datatype owner = Owner_batch nat "jstring list" | Owner_log "callback option"

record pending_send =
  p_owner :: owner
  p_data :: jstring
  p_tags :: "jstring list option"
  p_eventId :: "nat option"
  p_fetch :: nat

text \<open>
  \<open>sendBatch\<close> up to its first suspension point, the \<open>await fetch\<close> inside
  \<open>sendWithRetry\<close> and \<open>sendToLoggly\<close>; on an empty queue it returns before any of that.
\<close>

definition sendBatch_begin :: "world \<Rightarrow> world \<times> pending_send option" where
  "sendBatch_begin w =
     (let w1 = w\<lparr>batchTimer := None\<rparr>
      in if batchQueue w1 = [] then (w1, None)
         else
           let batchId = eventId w1;
               messages = batchQueue w1;
               w2 = w1\<lparr>eventId := Suc batchId, batchQueue := []\<rparr>;
               batchData = join newline messages
           in (sendToLoggly_begin w2 batchData None,
               Some \<lparr>p_owner = Owner_batch batchId messages, p_data = batchData, p_tags = None,
                      p_eventId = Some batchId, p_fetch = fetches w2\<rparr>))"

definition invoke :: "callback option \<Rightarrow> js_error option \<Rightarrow> jstring option \<Rightarrow> world \<Rightarrow> world" where
  "invoke cb err res w = (case cb of None \<Rightarrow> w | Some f \<Rightarrow> emit (Invoke f err res) w)"

definition unspecified_error :: "js_error \<Rightarrow> js_error" where
  "unspecified_error error = Error (lit ''Unspecified error from Loggly: '' @ toString error)"

text \<open>The rest of a suspended send, run until the asynchronous function that owns it ends.\<close>

definition settle :: "transport \<Rightarrow> world \<Rightarrow> pending_send \<Rightarrow> world" where
  "settle T w p =
     (case sendWithRetry_resume T w (p_data p) (p_tags p) (p_eventId p) 1 initialRetryDelay
             (p_fetch p) of
        (Inr resp, w1) \<Rightarrow>
          (case p_owner p of
             Owner_batch batchId messages \<Rightarrow> emit (Emit_log (Log_response resp)) w1
           | Owner_log cb \<Rightarrow>
               if statusCode resp = 200
               then invoke cb None (Some (response resp))
                      (emit (Emit_log (Log_body (response resp))) w1)
               else emit (Console Err (lit ''Error sending log to Loggly: ''
                                        @ lit (decimal (statusCode resp))) []) w1)
      | (Inl error, w1) \<Rightarrow>
          (case p_owner p of
             Owner_batch batchId messages \<Rightarrow>
               diagnostic Err (lit ''Failed to send batch #'' @ lit (decimal batchId) @ lit '':'')
                 [Arg_error error] (addToFailedBuffer w1 messages)
           | Owner_log cb \<Rightarrow> invoke cb (Some (unspecified_error error)) None w1))"

text \<open>
  \<open>sendBatch\<close> run to its end. The result \<open>Inr ()\<close> is a promise that resolves; the source's
  \<open>try\<close>/\<open>catch\<close> leaves no path on which it rejects.
\<close>

definition sendBatch :: "transport \<Rightarrow> world \<Rightarrow> (js_error + unit) \<times> world" where
  "sendBatch T w =
     (case sendBatch_begin w of
        (w1, None) \<Rightarrow> (Inr (), w1)
      | (w1, Some p) \<Rightarrow> (Inr (), settle T w1 p))"

definition addToBatchQueue :: "world \<Rightarrow> jstring \<Rightarrow> world \<times> pending_send option" where
  "addToBatchQueue w msg =
     (let w1 = w\<lparr>batchQueue := batchQueue w @ [msg]\<rparr>;
          w2 = (if batchTimer w1 = None then w1\<lparr>batchTimer := Some (Timeout 5000)\<rparr> else w1)
      in if length (batchQueue w2) \<ge> 100 then sendBatch_begin w2 else (w2, None))"

definition retryFailedLogs :: "transport \<Rightarrow> world \<Rightarrow> (js_error + unit) \<times> world" where
  "retryFailedLogs T w =
     (if failedLogsBuffer w = [] \<or> \<not> isTokenValid w then (Inr (), w)
      else
        let batchSize = (if isBulk (config w) then 100 else 1);
            batch = take batchSize (failedLogsBuffer w);
            batchData = (if isBulk (config w) then join newline batch else hd batch)
        in case sendToLoggly T w batchData None of
             (Inr resp, w1) \<Rightarrow>
               if statusCode resp = 200 then
                 let w2 = w1\<lparr>failedLogsBuffer := drop batchSize (failedLogsBuffer w1)\<rparr>;
                     w3 = emit (Emit_log (Log_response resp)) w2;
                     w4 = diagnostic Log (lit ''Successfully resent '' @ lit (decimal (length batch))
                                           @ lit '' buffered logs'') [] w3
                 in (Inr (),
                     if failedLogsBuffer w4 \<noteq> [] then emit (Set_timeout_retryFailedLogs 1000) w4
                     else w4)
               else (Inr (), w1)
           | (Inl error, w1) \<Rightarrow>
               (Inr (), diagnostic Err (lit ''Failed to resend buffered logs:'') [Arg_error error] w1))"

definition flush :: "transport \<Rightarrow> world \<Rightarrow> (js_error + unit) \<times> world" where
  "flush T w =
     (let w1 = w\<lparr>batchTimer := None\<rparr>;
          w2 = w1\<lparr>bufferRetryTimer := None\<rparr>;
          w3 = (if batchQueue w2 \<noteq> [] then
                  (case sendBatch T w2 of
                     (Inr u, w') \<Rightarrow> w'
                   | (Inl error, w') \<Rightarrow>
                       diagnostic Err (lit ''Error flushing batch queue:'') [Arg_error error] w')
                else w2);
          w4 = (if failedLogsBuffer w3 \<noteq> [] \<and> isTokenValid w3 then
                  (case retryFailedLogs T w3 of
                     (Inr u, w') \<Rightarrow> w'
                   | (Inl error, w') \<Rightarrow>
                       diagnostic Err (lit ''Error flushing failed logs buffer:'') [Arg_error error] w')
                else w3)
      in (Inr (), w4))"

section \<open>Logging\<close>

text \<open>The second parameter of \<open>log\<close>: absent, an array of tags, or the callback.\<close>

datatype tags_arg = Tags_undefined | Tags_array "jstring list" | Tags_function callback

text \<open>
  The first statement of \<open>log\<close>: \<open>if (!callback && typeof tags === 'function')\<close> the second
  argument is the callback and there are no tags.
\<close>

definition resolve_arguments :: "tags_arg \<Rightarrow> callback option \<Rightarrow> tags_arg \<times> callback option" where
  "resolve_arguments tgs0 callback0 =
     (case (callback0, tgs0) of
        (None, Tags_function f) \<Rightarrow> (Tags_undefined, Some f)
      | _ \<Rightarrow> (tgs0, callback0))"

text \<open>The warning after truncation, and \<open>Array.isArray(tags) ? tags : []\<close>.\<close>

definition truncation_warning :: "world \<Rightarrow> truncation \<Rightarrow> world" where
  "truncation_warning w truncated =
     (if isMessageTruncated truncated \<and> networkErrorsOnConsole (config w)
      then emit (Console Warn (lit ''Message truncated because it exceeds 1MB'') []) w
      else w)"

definition tags_of :: "tags_arg \<Rightarrow> jstring list" where
  "tags_of tgs = (case tgs of Tags_array xs \<Rightarrow> xs | _ \<Rightarrow> [])"

text \<open>
  \<open>log\<close> up to its \<open>return this\<close>. The first component is how the call ends (\<open>Inr ()\<close>: it
  returns), the last is the send it has started and left suspended, if any.
\<close>

definition log_sync ::
  "'d platform \<Rightarrow> world \<Rightarrow> 'd \<Rightarrow> tags_arg \<Rightarrow> callback option
     \<Rightarrow> (js_error + unit) \<times> world \<times> pending_send option" where
  "log_sync P w data tgs0 callback0 =
     (let (tgs, cb) = resolve_arguments tgs0 callback0
      in if \<not> isTokenValid w
         then (Inr (), invoke cb (Some (Error (lit ''Invalid token - authentication failed''))) None w,
               None)
         else
           (case format_payload P (config w) data of
              Inl error \<Rightarrow> (Inr (), invoke cb (Some (unspecified_error error)) None w, None)
            | Inr formatted \<Rightarrow>
                let truncated = truncateLargeMessage formatted;
                    formattedData = message truncated;
                    w1 = truncation_warning w truncated
                in if isBulk (config w) then
                     (case addToBatchQueue w1 formattedData of
                        (w2, p) \<Rightarrow> (Inr (), invoke cb None None w2, p))
                   else
                     let ts = tags_of tgs
                     in (Inr (), sendToLoggly_begin w1 formattedData (Some ts),
                         Some \<lparr>p_owner = Owner_log cb, p_data = formattedData, p_tags = Some ts,
                                p_eventId = None, p_fetch = fetches w1\<rparr>)))"

text \<open>\<open>log\<close> followed by the send it started, run to its end.\<close>

definition log ::
  "transport \<Rightarrow> 'd platform \<Rightarrow> world \<Rightarrow> 'd \<Rightarrow> tags_arg \<Rightarrow> callback option
     \<Rightarrow> (js_error + unit) \<times> world" where
  "log T P w data tgs callback0 =
     (case log_sync P w data tgs callback0 of
        (r, w1, None) \<Rightarrow> (r, w1)
      | (r, w1, Some p) \<Rightarrow> (r, settle T w1 p))"

section \<open>Runs of the client\<close>

text \<open>
  The field initialisers of the class and \<open>startBufferRetryTimer\<close>, for a resolved
  configuration, in a process whose proxy variables are not set.
\<close>

definition fresh_client :: "LogglyConfig \<Rightarrow> world" where
  "fresh_client c =
     \<lparr>config = c, batchQueue = [], failedLogsBuffer = [], batchTimer = None,
      bufferRetryTimer = (case bufferOptions c of
                            None \<Rightarrow> None
                          | Some bo \<Rightarrow> Some (Interval (retriesInMilliSeconds bo))),
      isTokenValid = True, eventId = 1, HTTPS_PROXY = None, HTTP_PROXY = None,
      fetches = 0, trace = []\<rparr>"

text \<open>
  What can happen to a client, each run to its end before the next begins: a call of
  \<open>log\<close> or \<open>flush\<close>, the batch timer firing (\<open>sendBatch\<close>), a tick of the buffer-retry
  interval or of the chained one-second timer (\<open>retryFailedLogs\<close>).
\<close>

datatype 'd call =
    Call_log 'd tags_arg "callback option"
  | Call_flush
  | Call_sendBatch
  | Call_retryFailedLogs

definition perform :: "transport \<Rightarrow> 'd platform \<Rightarrow> world \<Rightarrow> 'd call \<Rightarrow> world" where
  "perform T P w c =
     (case c of
        Call_log data tgs cb \<Rightarrow> snd (log T P w data tgs cb)
      | Call_flush \<Rightarrow> snd (flush T w)
      | Call_sendBatch \<Rightarrow> snd (sendBatch T w)
      | Call_retryFailedLogs \<Rightarrow> snd (retryFailedLogs T w))"

definition run :: "transport \<Rightarrow> 'd platform \<Rightarrow> world \<Rightarrow> 'd call list \<Rightarrow> world" where
  "run T P w cs = foldl (perform T P) w cs"

text \<open>
  Interleaved batches. JavaScript runs one task at a time; a task runs until it suspends
  at an \<open>await\<close> or ends. The events are: an entry is queued (\<open>addToBatchQueue\<close>, which at 100
  entries starts \<open>sendBatch\<close>), the armed batch timer fires (\<open>sendBatch\<close>), and one of the
  suspended sends is resumed and runs to the end of its \<open>sendBatch\<close>. Both ways of starting
  \<open>sendBatch\<close> run it up to its first suspension point and leave the rest in \<open>in_flight\<close>.
  \<open>launched\<close> records every send that was started, in order. A resumed send is run through
  all its retries in one event: between its awaits it writes neither the queue nor the batch
  timer, so cutting its run into those pieces would change neither the queue nor a snapshot.
\<close>

record system =
  client :: world
  in_flight :: "pending_send list"
  launched :: "pending_send list"

datatype event = Ev_enqueue jstring | Ev_batch_timer | Ev_settle nat

definition launch :: "system \<Rightarrow> world \<times> pending_send option \<Rightarrow> system" where
  "launch s r =
     (case r of
        (w, None) \<Rightarrow> s\<lparr>client := w\<rparr>
      | (w, Some p) \<Rightarrow> s\<lparr>client := w, in_flight := in_flight s @ [p], launched := launched s @ [p]\<rparr>)"

definition step :: "transport \<Rightarrow> system \<Rightarrow> event \<Rightarrow> system" where
  "step T s ev =
     (case ev of
        Ev_enqueue msg \<Rightarrow> launch s (addToBatchQueue (client s) msg)
      | Ev_batch_timer \<Rightarrow>
          if batchTimer (client s) = None then s else launch s (sendBatch_begin (client s))
      | Ev_settle k \<Rightarrow>
          if k < length (in_flight s)
          then s\<lparr>client := settle T (client s) (in_flight s ! k),
                 in_flight := take k (in_flight s) @ drop (Suc k) (in_flight s)\<rparr>
          else s)"

definition interleave :: "transport \<Rightarrow> system \<Rightarrow> event list \<Rightarrow> system" where
  "interleave T s evs = foldl (step T) s evs"

text \<open>The batch snapshot a suspended send has captured (none for an immediate send).\<close>

definition snapshot :: "pending_send \<Rightarrow> jstring list" where
  "snapshot p = (case p_owner p of Owner_batch batchId messages \<Rightarrow> messages | Owner_log cb \<Rightarrow> [])"

definition enqueued :: "event list \<Rightarrow> jstring list" where
  "enqueued evs = concat (map (\<lambda>ev. case ev of Ev_enqueue msg \<Rightarrow> [msg] | _ \<Rightarrow> []) evs)"

section \<open>Notions used in the statements\<close>

text \<open>
  What a send may do to the client: \<open>same_client w w'\<close> says that from \<open>w\<close> to \<open>w'\<close> the
  queue, the buffer, the timers, the configuration and the event counter are unchanged, the
  token has not become valid, and the trace has only grown, by effects other than
  notifications, callbacks and timers.
\<close>

definition quiet :: "effect \<Rightarrow> bool" where
  "quiet e =
     (case e of
        Emit_log x \<Rightarrow> False
      | Invoke f a b \<Rightarrow> False
      | Set_timeout_retryFailedLogs n \<Rightarrow> False
      | _ \<Rightarrow> True)"

definition same_client :: "world \<Rightarrow> world \<Rightarrow> bool" where
  "same_client w w' \<longleftrightarrow>
     config w' = config w \<and> batchQueue w' = batchQueue w \<and> failedLogsBuffer w' = failedLogsBuffer w
     \<and> batchTimer w' = batchTimer w \<and> bufferRetryTimer w' = bufferRetryTimer w
     \<and> eventId w' = eventId w \<and> (isTokenValid w' \<longrightarrow> isTokenValid w)
     \<and> fetches w \<le> fetches w'
     \<and> (\<exists>es. trace w' = trace w @ es \<and> (\<forall>e\<in>set es. quiet e))"

text \<open>
  The waits in a trace, in order, and the effects a later state has added to the trace of
  an earlier one.
\<close>

fun sleeps :: "effect list \<Rightarrow> nat list" where
  "sleeps [] = []"
| "sleeps (Sleep d # es) = d # sleeps es"
| "sleeps (e # es) = sleeps es"

definition since :: "world \<Rightarrow> world \<Rightarrow> effect list" where
  "since w w' = drop (length (trace w)) (trace w')"

text \<open>The requests in a trace, in the order they were made.\<close>

fun requests :: "effect list \<Rightarrow> request list" where
  "requests [] = []"
| "requests (Fetch r # es) = r # requests es"
| "requests (e # es) = requests es"

text \<open>
  How the source recognises a self-referential structure: \<open>JSON.stringify\<close> throws a
  \<open>TypeError\<close> whose message includes \<open>circular\<close>. A logged value contains one when it is
  such a value, or, for an array logged in bulk mode, when one of its items is.
\<close>

definition circular :: "'d platform \<Rightarrow> 'd \<Rightarrow> bool" where
  "circular P d =
     (case JSON_stringify P d of
        Inl e \<Rightarrow> err_name e = lit ''TypeError'' \<and> js_includes (err_message e) (lit ''circular'')
      | Inr s \<Rightarrow> False)"


text \<open>
  The entries a system accounts for: those captured by the sends started so far, in the
  order the sends were started, followed by those still queued.
\<close>

definition accounted :: "system \<Rightarrow> jstring list" where
  "accounted s = concat (map snapshot (launched s)) @ batchQueue (client s)"

section \<open>Sample inputs\<close>

text \<open>
  A configuration as the tests build it (token and subdomain given, every default
  resolved), the same in JSON mode, and a small platform: a value is a text or an object
  that refers to itself, on which \<open>JSON.stringify\<close> throws the engine's \<open>TypeError\<close>.
\<close>

definition default_config :: LogglyConfig where
  "default_config =
     \<lparr>token = lit ''test-token'', subdomain = lit ''test-subdomain'',
      host = lit ''logs-01.loggly.com'', api = lit ''apiv2'', json = False, useTagHeader = True,
      isBulk = True, bufferOptions = Some \<lparr>bo_size = Finite 500, retriesInMilliSeconds = Finite 30000\<rparr>,
      networkErrorsOnConsole = False, tags = None, proxy = None, auth = None\<rparr>"

definition json_config :: LogglyConfig where
  "json_config = default_config\<lparr>json := True\<rparr>"

datatype sample = Text jstring | Self_reference

definition sample_platform :: "sample platform" where
  "sample_platform =
     \<lparr>JSON_stringify = (\<lambda>d. case d of
          Text s \<Rightarrow> Inr (lit [CHR 0x22] @ s @ lit [CHR 0x22])
        | Self_reference \<Rightarrow> Inl (TypeError (lit ''Converting circular structure to JSON''))),
      Array_isArray = (\<lambda>d. False),
      elements = (\<lambda>d. []),
      is_object = (\<lambda>d. d = Self_reference),
      Object_entries = (\<lambda>d. case d of
          Text s \<Rightarrow> []
        | Self_reference \<Rightarrow> [(lit ''self'', Self_reference)]),
      String_of = (\<lambda>d. case d of
          Text s \<Rightarrow> Inr s
        | Self_reference \<Rightarrow> Inr (lit ''[object Object]''))\<rparr>"

text \<open>Transports that answer every request alike: with status 200, 201, 204, 401, 500.\<close>

definition always_ok :: transport where
  "always_ok n = Responds 200 (Inr (lit ''success''))"

definition always_201 :: transport where
  "always_201 n = Responds 201 (Inr (lit ''ok''))"


definition always_401 :: transport where
  "always_401 n = Responds 401 (Inr [])"

definition always_500 :: transport where
  "always_500 n = Responds 500 (Inr [])"

text \<open>The default client in immediate mode.\<close>

definition immediate_client :: world where
  "immediate_client = fresh_client (default_config\<lparr>isBulk := False\<rparr>)"

text \<open>A client configured with the proxy of the test suite.\<close>

definition with_proxy :: "world \<Rightarrow> world" where
  "with_proxy w = w\<lparr>config := (config w)\<lparr>proxy := Some (lit ''http://proxy.example.com:8080'')\<rparr>\<rparr>"

text \<open>A client whose token has been found invalid, with one entry in the failed-logs buffer.\<close>

definition tripped_client :: world where
  "tripped_client =
     (fresh_client default_config)\<lparr>isTokenValid := False, failedLogsBuffer := [lit ''old'']\<rparr>"

text \<open>A client whose failed-logs buffer has room for two entries and holds one.\<close>

definition small_buffer :: BufferOptions where
  "small_buffer = \<lparr>bo_size = Finite 2, retriesInMilliSeconds = Finite 30000\<rparr>"

definition small_buffer_client :: world where
  "small_buffer_client =
     (fresh_client (default_config\<lparr>bufferOptions := Some small_buffer\<rparr>))
       \<lparr>failedLogsBuffer := [lit ''a'']\<rparr>"

text \<open>A client whose failed-logs buffer has the size 2.5 and holds one entry.\<close>

definition fractional_buffer_client :: world where
  "fractional_buffer_client =
     (fresh_client (default_config\<lparr>bufferOptions :=
                       Some \<lparr>bo_size = Finite (5 / 2), retriesInMilliSeconds = Finite 30000\<rparr>\<rparr>))
       \<lparr>failedLogsBuffer := [lit ''a'']\<rparr>"



definition pending_client :: world where
  "pending_client =
     (fresh_client default_config)
       \<lparr>batchQueue := [lit ''message1'', lit ''message2''],
        batchTimer := Some (Timeout 5000),
        failedLogsBuffer := [lit ''failed1'', lit ''failed2'']\<rparr>"


text \<open>A system whose batch queue holds 99 entries, with the batch timer armed.\<close>

definition nearly_full_system :: system where
  "nearly_full_system =
     \<lparr>client = (fresh_client default_config)
                 \<lparr>batchQueue := replicate 99 (lit ''m''), batchTimer := Some (Timeout 5000)\<rparr>,
      in_flight = [], launched = []\<rparr>"

text \<open>The euro sign, U+20AC: one UTF-16 code unit, three bytes in UTF-8.\<close>

definition euro :: code_unit where
  "euro = 0x20AC"

section \<open>Basic facts\<close>

lemma lit_Nil [simp]: "lit [] = []"
  by (simp add: lit_def)

lemma lit_Cons: "lit (c # cs) = of_char c # lit cs"
  by (simp add: lit_def)

lemma lit_append: "lit (a @ b) = lit a @ lit b"
  by (simp add: lit_def)

lemma length_lit [simp]: "length (lit s) = length s"
  by (simp add: lit_def)

lemma lit_eq_Nil [simp]: "lit b = [] \<longleftrightarrow> b = []" "[] = lit b \<longleftrightarrow> b = []"
  by (auto simp: lit_def)

lemma unat_of_char: "unat (of_char c :: code_unit) = of_char c"
proof -
  have "(of_char c :: code_unit) = of_nat (of_char c)"
    by (simp add: of_nat_of_char)
  moreover have "(of_char c :: nat) < 65536"
    by (rule less_trans [of _ 256]) simp_all
  ultimately show ?thesis
    by (simp add: unat_of_nat)
qed

lemma inj_code_unit: "inj (of_char :: char \<Rightarrow> code_unit)"
proof (rule injI)
  fix c d :: char
  assume "(of_char c :: code_unit) = of_char d"
  then have "unat (of_char c :: code_unit) = unat (of_char d :: code_unit)"
    by simp
  then show "c = d"
    by (simp add: unat_of_char)
qed

lemma lit_eq_iff [simp]: "lit a = lit b \<longleftrightarrow> a = b"
  unfolding lit_def by (rule inj_map_eq_map [OF inj_code_unit])

lemma prefix_lit [simp]: "prefix (lit a) (lit b) \<longleftrightarrow> prefix a b"
proof
  assume "prefix (lit a) (lit b)"
  then obtain zs where "lit b = lit a @ zs"
    by (auto simp: prefix_def)
  then have "lit (take (length a) b) = lit a"
    by (simp add: lit_def flip: take_map)
  then have "take (length a) b = a"
    by simp
  then show "prefix a b"
    by (metis take_is_prefix)
next
  assume "prefix a b"
  then show "prefix (lit a) (lit b)"
    unfolding lit_def by (rule map_mono_prefix)
qed

lemma js_includes_lit [simp]: "js_includes (lit a) (lit b) = js_includes a b"
proof (induction a)
  case Nil
  show ?case by simp
next
  case (Cons c cs)
  have "js_includes (lit (c # cs)) (lit b)
          = (prefix (lit b) (lit (c # cs)) \<or> js_includes (lit cs) (lit b))"
    by (simp add: lit_Cons)
  then show ?case
    using Cons by simp
qed

section \<open>What sending leaves unchanged\<close>

lemma emit_fields [simp]:
  "config (emit e w) = config w" "batchQueue (emit e w) = batchQueue w"
  "failedLogsBuffer (emit e w) = failedLogsBuffer w" "batchTimer (emit e w) = batchTimer w"
  "bufferRetryTimer (emit e w) = bufferRetryTimer w" "isTokenValid (emit e w) = isTokenValid w"
  "eventId (emit e w) = eventId w" "HTTPS_PROXY (emit e w) = HTTPS_PROXY w"
  "HTTP_PROXY (emit e w) = HTTP_PROXY w" "fetches (emit e w) = fetches w"
  "trace (emit e w) = trace w @ [e]"
  by (simp_all add: emit_def)

lemma diagnostic_fields [simp]:
  "config (diagnostic l m a w) = config w" "batchQueue (diagnostic l m a w) = batchQueue w"
  "failedLogsBuffer (diagnostic l m a w) = failedLogsBuffer w"
  "batchTimer (diagnostic l m a w) = batchTimer w"
  "bufferRetryTimer (diagnostic l m a w) = bufferRetryTimer w"
  "isTokenValid (diagnostic l m a w) = isTokenValid w"
  "eventId (diagnostic l m a w) = eventId w" "HTTPS_PROXY (diagnostic l m a w) = HTTPS_PROXY w"
  "HTTP_PROXY (diagnostic l m a w) = HTTP_PROXY w" "fetches (diagnostic l m a w) = fetches w"
  by (simp_all add: diagnostic_def)

lemma invoke_fields [simp]:
  "config (invoke cb e r w) = config w" "batchQueue (invoke cb e r w) = batchQueue w"
  "failedLogsBuffer (invoke cb e r w) = failedLogsBuffer w"
  "batchTimer (invoke cb e r w) = batchTimer w"
  "bufferRetryTimer (invoke cb e r w) = bufferRetryTimer w"
  "isTokenValid (invoke cb e r w) = isTokenValid w"
  "eventId (invoke cb e r w) = eventId w" "HTTPS_PROXY (invoke cb e r w) = HTTPS_PROXY w"
  "HTTP_PROXY (invoke cb e r w) = HTTP_PROXY w" "fetches (invoke cb e r w) = fetches w"
  by (simp_all add: invoke_def split: option.splits)

lemma truncation_warning_fields [simp]:
  "config (truncation_warning w t) = config w" "batchQueue (truncation_warning w t) = batchQueue w"
  "failedLogsBuffer (truncation_warning w t) = failedLogsBuffer w"
  "batchTimer (truncation_warning w t) = batchTimer w"
  "bufferRetryTimer (truncation_warning w t) = bufferRetryTimer w"
  "isTokenValid (truncation_warning w t) = isTokenValid w"
  "eventId (truncation_warning w t) = eventId w" "HTTPS_PROXY (truncation_warning w t) = HTTPS_PROXY w"
  "HTTP_PROXY (truncation_warning w t) = HTTP_PROXY w" "fetches (truncation_warning w t) = fetches w"
  by (simp_all add: truncation_warning_def)

lemma sendToLoggly_begin_fields [simp]:
  "config (sendToLoggly_begin w d t) = config w"
  "batchQueue (sendToLoggly_begin w d t) = batchQueue w"
  "failedLogsBuffer (sendToLoggly_begin w d t) = failedLogsBuffer w"
  "batchTimer (sendToLoggly_begin w d t) = batchTimer w"
  "bufferRetryTimer (sendToLoggly_begin w d t) = bufferRetryTimer w"
  "isTokenValid (sendToLoggly_begin w d t) = isTokenValid w"
  "eventId (sendToLoggly_begin w d t) = eventId w"
  "fetches (sendToLoggly_begin w d t) = Suc (fetches w)"
  "trace (sendToLoggly_begin w d t) = trace w @ [Fetch (build_request (config w) d t)]"
  by (simp_all add: sendToLoggly_begin_def Let_def)

lemma sendToLoggly_end_fields [simp]:
  "config (snd (sendToLoggly_end w out)) = config w"
  "batchQueue (snd (sendToLoggly_end w out)) = batchQueue w"
  "failedLogsBuffer (snd (sendToLoggly_end w out)) = failedLogsBuffer w"
  "batchTimer (snd (sendToLoggly_end w out)) = batchTimer w"
  "bufferRetryTimer (snd (sendToLoggly_end w out)) = bufferRetryTimer w"
  "eventId (snd (sendToLoggly_end w out)) = eventId w"
  "fetches (snd (sendToLoggly_end w out)) = fetches w"
  "trace (snd (sendToLoggly_end w out)) = trace w"
  by (simp_all add: sendToLoggly_end_def Let_def split: fetch_outcome.splits sum.splits)

lemma sendToLoggly_end_invalid:
  "\<not> isTokenValid w \<Longrightarrow> \<not> isTokenValid (snd (sendToLoggly_end w out))"
  by (simp add: sendToLoggly_end_def Let_def split: fetch_outcome.splits sum.splits)

lemma addToFailedBuffer_config [simp]: "config (addToFailedBuffer w ms) = config w"
  by (simp add: addToFailedBuffer_def Let_def split: option.splits prod.splits)

lemma addToFailedBuffer_fields [simp]:
  "batchQueue (addToFailedBuffer w ms) = batchQueue w"
  "batchTimer (addToFailedBuffer w ms) = batchTimer w"
  "bufferRetryTimer (addToFailedBuffer w ms) = bufferRetryTimer w"
  "isTokenValid (addToFailedBuffer w ms) = isTokenValid w"
  "eventId (addToFailedBuffer w ms) = eventId w"
  "HTTPS_PROXY (addToFailedBuffer w ms) = HTTPS_PROXY w"
  "HTTP_PROXY (addToFailedBuffer w ms) = HTTP_PROXY w"
  "fetches (addToFailedBuffer w ms) = fetches w"
  "trace (addToFailedBuffer w ms) = trace w"
  by (simp_all add: addToFailedBuffer_def Let_def split: option.splits prod.splits)

lemma sendBatch_begin_fields [simp]:
  "config (fst (sendBatch_begin w)) = config w"
  "failedLogsBuffer (fst (sendBatch_begin w)) = failedLogsBuffer w"
  "bufferRetryTimer (fst (sendBatch_begin w)) = bufferRetryTimer w"
  "isTokenValid (fst (sendBatch_begin w)) = isTokenValid w"
  "batchTimer (fst (sendBatch_begin w)) = None"
  "batchQueue (fst (sendBatch_begin w)) = []"
  by (simp_all add: sendBatch_begin_def Let_def)

lemma addToBatchQueue_fields [simp]:
  "config (fst (addToBatchQueue w m)) = config w"
  "failedLogsBuffer (fst (addToBatchQueue w m)) = failedLogsBuffer w"
  "bufferRetryTimer (fst (addToBatchQueue w m)) = bufferRetryTimer w"
  "isTokenValid (fst (addToBatchQueue w m)) = isTokenValid w"
  by (simp_all add: addToBatchQueue_def Let_def)

lemma same_client_refl [simp]: "same_client w w"
  by (simp add: same_client_def)

lemma same_client_trans: "same_client a b \<Longrightarrow> same_client b c \<Longrightarrow> same_client a c"
  by (auto simp: same_client_def)

lemma same_client_begin: "same_client w (sendToLoggly_begin w d t)"
  by (simp add: same_client_def quiet_def)

lemma same_client_end: "same_client w (snd (sendToLoggly_end w out))"
  using sendToLoggly_end_invalid [of w out] by (auto simp: same_client_def)

lemma same_client_diagnostic: "same_client w (diagnostic l m a w)"
  by (auto simp: same_client_def diagnostic_def quiet_def)

lemma same_client_sleep: "same_client w (emit (Sleep n) w)"
  by (auto simp: same_client_def quiet_def)

lemma same_client_truncation_warning: "same_client w (truncation_warning w t)"
  by (auto simp: same_client_def truncation_warning_def quiet_def)

lemma same_client_resume:
  "same_client w (snd (sendWithRetry_resume T w d t eid attempt delay fid))"
proof (induction T w d t eid attempt delay fid rule: sendWithRetry_resume.induct)
  case (1 T w d t eid attempt delay fid)
  obtain r w1 where e: "sendToLoggly_end w (T fid) = (r, w1)" by (cases "sendToLoggly_end w (T fid)")
  have s1: "same_client w w1" using same_client_end [of w "T fid"] e by simp
  show ?case
  proof (cases r)
    case (Inr resp)
    then show ?thesis using e s1
      by (subst sendWithRetry_resume.simps)
         (auto intro: same_client_trans [OF s1 same_client_diagnostic])
  next
    case (Inl err)
    show ?thesis
    proof (cases "attempt \<ge> maxRetries \<or> \<not> isRetryableError err")
      case True
      then show ?thesis using e s1 Inl
        by (subst sendWithRetry_resume.simps)
           (auto intro: same_client_trans [OF s1 same_client_diagnostic])
    next
      case False
      define w2 where "w2 = (if truthy_id eid
                      then diagnostic Log (lit ''Log #'' @ show_eventId eid @ lit '' - Retry attempt ''
                                            @ lit (decimal (attempt + 1)) @ lit '' in ''
                                            @ lit (decimal delay) @ lit ''ms'') [] w1
                      else w1)"
      define w3 where "w3 = emit (Sleep delay) w2"
      have s2: "same_client w1 w2" by (simp add: w2_def same_client_diagnostic)
      have s3: "same_client w2 w3" by (simp add: w3_def same_client_sleep)
      have s4: "same_client w3 (sendToLoggly_begin w3 d t)" by (rule same_client_begin)
      have ih: "same_client (sendToLoggly_begin w3 d t)
                 (snd (sendWithRetry_resume T (sendToLoggly_begin w3 d t) d t eid (attempt + 1) (delay * 2) (fetches w3)))"
        using "1.IH" [OF e [symmetric] Inl _ _ w2_def w3_def] False by simp
      have eq: "sendWithRetry_resume T w d t eid attempt delay fid
                = sendWithRetry_resume T (sendToLoggly_begin w3 d t) d t eid (attempt + 1) (delay * 2) (fetches w3)"
        using False e Inl by (subst sendWithRetry_resume.simps) (simp add: w2_def w3_def Let_def)
      show ?thesis
        unfolding eq
        using same_client_trans [OF s1 same_client_trans [OF s2 same_client_trans [OF s3 same_client_trans [OF s4 ih]]]] .
    qed
  qed
qed

lemma same_client_sendWithRetry:
  "same_client w (snd (sendWithRetry T w d t eid attempt delay))"
  unfolding sendWithRetry_def
  by (rule same_client_trans [OF same_client_begin same_client_resume])

lemma same_client_no_emit:
  assumes "same_client w w'"
  shows "Emit_log x \<notin> set (drop (length (trace w)) (trace w'))"
proof -
  obtain es where es: "trace w' = trace w @ es" "\<forall>e\<in>set es. quiet e"
    using assms by (auto simp: same_client_def)
  have "\<not> quiet (Emit_log x)" by (simp add: quiet_def)
  then show ?thesis using es by auto
qed

lemma resume_monotone:
  "isTokenValid (snd (sendWithRetry_resume T w d t eid attempt delay fid)) \<Longrightarrow> isTokenValid w"
  using same_client_resume [of w T d t eid attempt delay fid] by (simp add: same_client_def)

lemma resume_frame [simp]:
  "config (snd (sendWithRetry_resume T w d t eid attempt delay fid)) = config w"
  "batchQueue (snd (sendWithRetry_resume T w d t eid attempt delay fid)) = batchQueue w"
  "failedLogsBuffer (snd (sendWithRetry_resume T w d t eid attempt delay fid)) = failedLogsBuffer w"
  "batchTimer (snd (sendWithRetry_resume T w d t eid attempt delay fid)) = batchTimer w"
  "bufferRetryTimer (snd (sendWithRetry_resume T w d t eid attempt delay fid)) = bufferRetryTimer w"
  "eventId (snd (sendWithRetry_resume T w d t eid attempt delay fid)) = eventId w"
  using same_client_resume [of w T d t eid attempt delay fid] by (simp_all add: same_client_def)




lemma settle_frame [simp]:
  "config (settle T w p) = config w" "batchQueue (settle T w p) = batchQueue w"
  "batchTimer (settle T w p) = batchTimer w" "bufferRetryTimer (settle T w p) = bufferRetryTimer w"
  "eventId (settle T w p) = eventId w"
proof -
  obtain r w1 where e: "sendWithRetry_resume T w (p_data p) (p_tags p) (p_eventId p) 1
                          initialRetryDelay (p_fetch p) = (r, w1)"
    by (cases "sendWithRetry_resume T w (p_data p) (p_tags p) (p_eventId p) 1
                 initialRetryDelay (p_fetch p)")
  have w1: "w1 = snd (sendWithRetry_resume T w (p_data p) (p_tags p) (p_eventId p) 1
                        initialRetryDelay (p_fetch p))"
    using e by simp
  have f: "config w1 = config w" "batchQueue w1 = batchQueue w" "batchTimer w1 = batchTimer w"
    "bufferRetryTimer w1 = bufferRetryTimer w" "eventId w1 = eventId w"
    unfolding w1 by simp_all
  show "config (settle T w p) = config w" "batchQueue (settle T w p) = batchQueue w"
    "batchTimer (settle T w p) = batchTimer w" "bufferRetryTimer (settle T w p) = bufferRetryTimer w"
    "eventId (settle T w p) = eventId w"
    using e f by (simp_all add: settle_def split: sum.splits owner.splits)
qed







section \<open>Retries and backoff\<close>

lemma js_includes_subset: "js_includes hay needle \<Longrightarrow> set needle \<subseteq> set hay"
proof (induction hay)
  case Nil
  then show ?case by simp
next
  case (Cons h hs)
  from Cons.prems have "prefix needle (h # hs) \<or> js_includes hs needle"
    by simp
  then show ?case
  proof
    assume "prefix needle (h # hs)"
    then show ?thesis by (rule set_mono_prefix)
  next
    assume "js_includes hs needle"
    then show ?thesis using Cons.IH by auto
  qed
qed

lemma decimal_digits: "set (decimal n) \<subseteq> set ''0123456789''"
proof (induction n rule: decimal.induct)
  case (1 n)
  have d: "digit_char k \<in> set ''0123456789''" if "k < 10" for k
    unfolding digit_char_def by (rule nth_mem) (use that in simp)
  show ?case
  proof (cases "n < 10")
    case True
    then show ?thesis
      using d [of n] by (subst decimal.simps) simp
  next
    case False
    then show ?thesis
      using "1.IH" d [of "n mod 10"] by (subst decimal.simps) simp
  qed
qed

lemma decimal_not_Nil [simp]: "decimal n \<noteq> []"
  by (subst decimal.simps) simp

text \<open>
  The error that \<open>sendToLoggly\<close> throws for a response that is not ok reads
  \<open>Error: HTTP Error: 503\<close>. \<open>isRetryableError\<close> looks for \<open>status: 5\<close> and \<open>status: 429\<close>,
  and for the network codes; none of them occurs in that text, whatever the status.
\<close>

lemma http_error_not_retryable:
  "\<not> isRetryableError (Error (lit ''HTTP Error: '' @ lit (decimal status)))"
proof -
  let ?s = "''Error: HTTP Error: '' @ decimal status"
  have ts: "toString (Error (lit ''HTTP Error: '' @ lit (decimal status))) = lit ?s"
    by (simp add: toString_def Error_def flip: lit_append)
  have split: "''Error: HTTP Error: 0123456789'' = ''Error: HTTP Error: '' @ ''0123456789''"
    by simp
  have sub: "set ?s \<subseteq> set ''Error: HTTP Error: 0123456789''"
    unfolding split set_append using decimal_digits [of status]
    by (rule Un_mono [OF subset_refl])
  have no: "\<not> js_includes ?s needle"
    if "c \<in> set needle" "c \<notin> set ''Error: HTTP Error: 0123456789''" for needle c
    using js_includes_subset [of ?s needle] sub that by blast
  have "\<not> js_includes ?s ''ETIMEDOUT''" by (rule no [of "CHR ''I''"]) simp_all
  moreover have "\<not> js_includes ?s ''ECONNRESET''" by (rule no [of "CHR ''C''"]) simp_all
  moreover have "\<not> js_includes ?s ''ESOCKETTIMEDOUT''" by (rule no [of "CHR ''S''"]) simp_all
  moreover have "\<not> js_includes ?s ''ECONNABORTED''" by (rule no [of "CHR ''C''"]) simp_all
  moreover have "\<not> js_includes ?s ''ENETUNREACH''" by (rule no [of "CHR ''N''"]) simp_all
  moreover have "\<not> js_includes ?s ''EHOSTUNREACH''" by (rule no [of "CHR ''S''"]) simp_all
  moreover have "\<not> js_includes ?s ''status: 5''" by (rule no [of "CHR ''s''"]) simp_all
  moreover have "\<not> js_includes ?s ''status: 429''" by (rule no [of "CHR ''s''"]) simp_all
  ultimately show ?thesis
    unfolding isRetryableError_def Let_def ts retryableErrors_def by simp
qed

lemma sleeps_append [simp]: "sleeps (xs @ ys) = sleeps xs @ sleeps ys"
  by (induction xs rule: sleeps.induct) simp_all

lemma since_self [simp]: "since w w = []"
  by (simp add: since_def)

lemma since_emit [simp]: "since w (emit e w) = [e]"
  by (simp add: since_def)

lemma since_begin [simp]:
  "since w (sendToLoggly_begin w d t) = [Fetch (build_request (config w) d t)]"
  by (simp add: since_def)

lemma since_end [simp]: "since w (snd (sendToLoggly_end w out)) = []"
  by (simp add: since_def)

lemma sleeps_since_diagnostic [simp]: "sleeps (since w (diagnostic l m a w)) = []"
  by (simp add: diagnostic_def)


lemma since_trans:
  assumes "same_client a b" "same_client b c"
  shows "since a c = since a b @ since b c"
proof -
  obtain x y where x: "trace b = trace a @ x" and y: "trace c = trace b @ y"
    using assms by (auto simp: same_client_def)
  then show ?thesis
    by (simp add: since_def)
qed

lemma doubling:
  "(d::nat) # map (\<lambda>i. d * 2 * 2 ^ i) [0..<k] = map (\<lambda>i. d * 2 ^ i) [0..<Suc k]"
proof -
  have "[0..<Suc k] = 0 # map Suc [0..<k]"
    by (simp add: upt_conv_Cons map_Suc_upt del: upt_Suc)
  then show ?thesis
    by (simp add: comp_def mult.assoc del: upt_Suc)
qed

lemma resume_backoff:
  "\<exists>k. k \<le> maxRetries - attempt
     \<and> fetches (snd (sendWithRetry_resume T w d t eid attempt delay fid)) = fetches w + k
     \<and> sleeps (since w (snd (sendWithRetry_resume T w d t eid attempt delay fid)))
         = map (\<lambda>i. delay * 2 ^ i) [0..<k]"
proof (induction T w d t eid attempt delay fid rule: sendWithRetry_resume.induct)
  case (1 T w d t eid attempt delay fid)
  obtain r w1 where e: "sendToLoggly_end w (T fid) = (r, w1)"
    by (cases "sendToLoggly_end w (T fid)")
  have w1: "w1 = snd (sendToLoggly_end w (T fid))"
    using e by simp
  have s1: "same_client w w1" "fetches w1 = fetches w" "since w w1 = []"
    unfolding w1 by (simp_all add: same_client_end)
  show ?case
  proof (cases "\<exists>err. r = Inl err \<and> attempt < maxRetries \<and> isRetryableError err")
    case False
    have d: "fetches (diagnostic l m a w1) = fetches w"
      "sleeps (since w (diagnostic l m a w1)) = []" for l m a
      using s1 since_trans [OF s1(1) same_client_diagnostic, of l m a] by simp_all
    have "fetches (snd (sendWithRetry_resume T w d t eid attempt delay fid)) = fetches w
        \<and> sleeps (since w (snd (sendWithRetry_resume T w d t eid attempt delay fid))) = []"
    proof (cases r)
      case (Inr resp)
      then show ?thesis
        using e s1 d by (subst (1 2) sendWithRetry_resume.simps) simp
    next
      case (Inl err)
      then have "attempt \<ge> maxRetries \<or> \<not> isRetryableError err"
        using False by auto
      then show ?thesis
        using e s1 d Inl by (subst (1 2) sendWithRetry_resume.simps) auto
    qed
    then show ?thesis
      by (intro exI [of _ 0]) simp
  next
    case True
    then obtain err where err: "r = Inl err" "attempt < maxRetries" "isRetryableError err"
      by blast
    define w2 where "w2 = (if truthy_id eid
                      then diagnostic Log (lit ''Log #'' @ show_eventId eid @ lit '' - Retry attempt ''
                                            @ lit (decimal (attempt + 1)) @ lit '' in ''
                                            @ lit (decimal delay) @ lit ''ms'') [] w1
                      else w1)"
    define w3 where "w3 = emit (Sleep delay) w2"
    define w4 where "w4 = sendToLoggly_begin w3 d t"
    have eq: "sendWithRetry_resume T w d t eid attempt delay fid
                = sendWithRetry_resume T w4 d t eid (attempt + 1) (delay * 2) (fetches w3)"
      using err e by (subst sendWithRetry_resume.simps) (simp add: w2_def w3_def w4_def Let_def)
    have s2: "same_client w1 w2" "fetches w2 = fetches w1" "sleeps (since w1 w2) = []"
      by (simp_all add: w2_def same_client_diagnostic)
    have s3: "same_client w2 w3" "fetches w3 = fetches w2" "since w2 w3 = [Sleep delay]"
      by (simp_all add: w3_def same_client_sleep)
    have s4: "same_client w3 w4" "fetches w4 = Suc (fetches w3)" "sleeps (since w3 w4) = []"
      by (simp_all add: w4_def same_client_begin)
    let ?r = "snd (sendWithRetry_resume T w4 d t eid (attempt + 1) (delay * 2) (fetches w3))"
    have s5: "same_client w4 ?r"
      by (rule same_client_resume)
    obtain k where k: "k \<le> maxRetries - (attempt + 1)" "fetches ?r = fetches w4 + k"
      "sleeps (since w4 ?r) = map (\<lambda>i. delay * 2 * 2 ^ i) [0..<k]"
      using "1.IH" [OF e [symmetric] err(1) _ _ w2_def w3_def] err(2,3)
      unfolding w4_def by auto
    have a12: "same_client w w2" using s1(1) s2(1) by (rule same_client_trans)
    have a13: "same_client w w3" using a12 s3(1) by (rule same_client_trans)
    have a14: "same_client w w4" using a13 s4(1) by (rule same_client_trans)
    have "since w ?r = since w w4 @ since w4 ?r"
      using a14 s5 by (rule since_trans)
    also have "since w w4 = since w w3 @ since w3 w4"
      using a13 s4(1) by (rule since_trans)
    also have "since w w3 = since w w2 @ since w2 w3"
      using a12 s3(1) by (rule since_trans)
    also have "since w w2 = since w w1 @ since w1 w2"
      using s1(1) s2(1) by (rule since_trans)
    finally have "sleeps (since w ?r) = delay # map (\<lambda>i. delay * 2 * 2 ^ i) [0..<k]"
      using s1(3) s2(3) s3(3) s4(3) k(3) by simp
    then have sl: "sleeps (since w ?r) = map (\<lambda>i. delay * 2 ^ i) [0..<Suc k]"
      by (simp only: doubling)
    have fe: "fetches ?r = fetches w + Suc k"
      using k(2) s4(2) s3(2) s2(2) s1(2) by simp
    have "Suc k \<le> maxRetries - attempt"
      using k(1) err(2) by simp
    then show ?thesis
      unfolding eq using sl fe by (intro exI [of _ "Suc k"]) simp
  qed
qed

text \<open>
  Whatever the transport does, \<open>sendWithRetry\<close> started at attempt 1 calls \<open>fetch\<close> once and
  then at most four more times, and the waits between the calls are 2000 ms, 4000 ms,
  8000 ms and 16000 ms, as many as there are retries.
\<close>

lemma sendWithRetry_backoff:
  "\<exists>k. k \<le> 4
     \<and> fetches (snd (sendWithRetry T w d t eid 1 initialRetryDelay)) = fetches w + 1 + k
     \<and> sleeps (since w (snd (sendWithRetry T w d t eid 1 initialRetryDelay)))
         = map (\<lambda>i. 2000 * 2 ^ i) [0..<k]"
proof -
  let ?b = "sendToLoggly_begin w d t"
  let ?r = "snd (sendWithRetry_resume T ?b d t eid 1 initialRetryDelay (fetches w))"
  obtain k where k: "k \<le> maxRetries - 1" "fetches ?r = fetches ?b + k"
    "sleeps (since ?b ?r) = map (\<lambda>i. initialRetryDelay * 2 ^ i) [0..<k]"
    using resume_backoff [of 1 T ?b d t eid initialRetryDelay "fetches w"] by blast
  have "since w ?r = since w ?b @ since ?b ?r"
    using same_client_begin same_client_resume by (rule since_trans)
  then have "sleeps (since w ?r) = map (\<lambda>i. 2000 * 2 ^ i) [0..<k]"
    using k(3) by (simp add: initialRetryDelay_def)
  then show ?thesis
    using k(1,2) by (intro exI [of _ k]) (simp add: sendWithRetry_def maxRetries_def)
qed

text \<open>
  Claim C1, at the responses the claim calls retryable. When \<open>fetch\<close> resolves with a status
  from 500 upwards, or with 429, \<open>sendWithRetry\<close> started at attempt 1 fails with
  \<open>HTTP Error: <status>\<close> after that one call of \<open>fetch\<close>: the state is the one the first
  request left, with no wait and no second request.
\<close>

theorem sendWithRetry_http_5xx_fails_at_once:
  "sendWithRetry (\<lambda>n. Responds (500 + k) txt) w data tgs eid 1 initialRetryDelay
     = (Inl (Error (lit ''HTTP Error: '' @ lit (decimal (500 + k)))), sendToLoggly_begin w data tgs)
   \<and> sendWithRetry (\<lambda>n. Responds 429 txt) w data tgs eid 1 initialRetryDelay
     = (Inl (Error (lit ''HTTP Error: '' @ lit (decimal 429))), sendToLoggly_begin w data tgs)"
  by (simp add: sendWithRetry_def sendWithRetry_resume.simps sendToLoggly_end_def maxRetries_def
      http_error_not_retryable)

section \<open>Authentication failures\<close>

lemma settle_monotone: "isTokenValid (settle T w p) \<Longrightarrow> isTokenValid w"
proof -
  assume a: "isTokenValid (settle T w p)"
  obtain r w1 where e: "sendWithRetry_resume T w (p_data p) (p_tags p) (p_eventId p) 1
                          initialRetryDelay (p_fetch p) = (r, w1)"
    by (cases "sendWithRetry_resume T w (p_data p) (p_tags p) (p_eventId p) 1
                 initialRetryDelay (p_fetch p)")
  have "isTokenValid w1"
    using a e by (auto simp: settle_def split: sum.splits owner.splits if_splits)
  then show ?thesis
    using resume_monotone [of T w "p_data p" "p_tags p" "p_eventId p" 1 initialRetryDelay "p_fetch p"] e
    by simp
qed

lemma sendBatch_monotone: "isTokenValid (snd (sendBatch T w)) \<Longrightarrow> isTokenValid w"
proof -
  assume a: "isTokenValid (snd (sendBatch T w))"
  obtain w1 p where b: "sendBatch_begin w = (w1, p)" by (cases "sendBatch_begin w")
  have v: "isTokenValid w1 = isTokenValid w" using sendBatch_begin_fields(4) [of w] b by simp
  show ?thesis
  proof (cases p)
    case None
    then show ?thesis using a b v by (simp add: sendBatch_def)
  next
    case (Some q)
    then have "isTokenValid (settle T w1 q)" using a b by (simp add: sendBatch_def)
    then show ?thesis using settle_monotone v by blast
  qed
qed

lemma sendToLoggly_monotone: "isTokenValid (snd (sendToLoggly T w d t)) \<Longrightarrow> isTokenValid w"
  using sendToLoggly_end_invalid [of "sendToLoggly_begin w d t" "T (fetches w)"]
  by (auto simp: sendToLoggly_def)

lemma retryFailedLogs_invalid: "\<not> isTokenValid w \<Longrightarrow> retryFailedLogs T w = (Inr (), w)"
  by (simp add: retryFailedLogs_def)

lemma retryFailedLogs_monotone: "isTokenValid (snd (retryFailedLogs T w)) \<Longrightarrow> isTokenValid w"
  by (cases "isTokenValid w") (simp_all add: retryFailedLogs_invalid)

lemma flush_monotone: "isTokenValid (snd (flush T w)) \<Longrightarrow> isTokenValid w"
proof (rule ccontr)
  assume a: "isTokenValid (snd (flush T w))" and n: "\<not> isTokenValid w"
  let ?w2 = "w\<lparr>batchTimer := None, bufferRetryTimer := None\<rparr>"
  have n2: "\<not> isTokenValid ?w2" using n by simp
  have n3: "\<not> isTokenValid (snd (sendBatch T ?w2))" using sendBatch_monotone n2 by blast
  have r: "fst (sendBatch T ?w2) = Inr ()" by (simp add: sendBatch_def split: prod.splits option.splits)
  show False using a n n2 n3 r
    by (auto simp: flush_def Let_def split: prod.splits sum.splits if_splits)
qed

lemma log_sync_invalid:
  "\<not> isTokenValid w \<Longrightarrow>
   log_sync P w data tg cb
     = (Inr (), invoke (snd (resolve_arguments tg cb))
                 (Some (Error (lit ''Invalid token - authentication failed''))) None w, None)"
  by (simp add: log_sync_def split: prod.splits)

lemma log_invalid:
  "\<not> isTokenValid w \<Longrightarrow>
   log T P w data tg cb
     = (Inr (), invoke (snd (resolve_arguments tg cb))
                 (Some (Error (lit ''Invalid token - authentication failed''))) None w)"
  by (simp add: log_def log_sync_invalid)

lemma perform_invalid: "\<not> isTokenValid w \<Longrightarrow> \<not> isTokenValid (perform T P w c)"
proof (cases c)
  case (Call_log data tgs cb)
  assume "\<not> isTokenValid w"
  then show ?thesis using Call_log by (simp add: perform_def log_invalid)
next
  case Call_flush
  assume "\<not> isTokenValid w"
  then show ?thesis using Call_flush flush_monotone [of T w] by (auto simp: perform_def)
next
  case Call_sendBatch
  assume "\<not> isTokenValid w"
  then show ?thesis using Call_sendBatch sendBatch_monotone [of T w] by (auto simp: perform_def)
next
  case Call_retryFailedLogs
  assume "\<not> isTokenValid w"
  then show ?thesis using Call_retryFailedLogs by (simp add: perform_def retryFailedLogs_invalid)
qed

lemma run_invalid: "\<not> isTokenValid w \<Longrightarrow> \<not> isTokenValid (run T P w cs)"
  unfolding run_def by (induction cs arbitrary: w) (simp_all add: perform_invalid)

lemma step_invalid: "\<not> isTokenValid (client s) \<Longrightarrow> \<not> isTokenValid (client (step T s ev))"
proof (cases ev)
  case (Ev_enqueue msg)
  assume n: "\<not> isTokenValid (client s)"
  obtain w1 p where e: "addToBatchQueue (client s) msg = (w1, p)"
    by (cases "addToBatchQueue (client s) msg")
  then have "isTokenValid w1 = isTokenValid (client s)"
    using addToBatchQueue_fields(4) [of "client s" msg] by simp
  then show ?thesis using n e Ev_enqueue by (simp add: step_def launch_def split: option.splits)
next
  case Ev_batch_timer
  assume n: "\<not> isTokenValid (client s)"
  obtain w1 p where e: "sendBatch_begin (client s) = (w1, p)"
    by (cases "sendBatch_begin (client s)")
  then have "isTokenValid w1 = isTokenValid (client s)"
    using sendBatch_begin_fields(4) [of "client s"] by simp
  then show ?thesis using n e Ev_batch_timer by (simp add: step_def launch_def split: option.splits)
next
  case (Ev_settle k)
  assume n: "\<not> isTokenValid (client s)"
  then show ?thesis using Ev_settle settle_monotone [of T "client s" "in_flight s ! k"]
    by (auto simp: step_def)
qed

lemma interleave_invalid:
  "\<not> isTokenValid (client s) \<Longrightarrow> \<not> isTokenValid (client (interleave T s evs))"
  unfolding interleave_def by (induction evs arbitrary: s) (simp_all add: step_invalid)

lemma auth_error_not_retryable:
  "\<not> isRetryableError (Error (lit ''Authentication failed - invalid token''))"
  by (simp add: isRetryableError_def toString_def Error_def retryableErrors_def flip: lit_append)

lemma sendToLoggly_end_auth:
  "status = 401 \<or> status = 403 \<Longrightarrow>
   sendToLoggly_end w (Responds status txt)
     = (Inl (Error (lit ''Authentication failed - invalid token'')), w\<lparr>isTokenValid := False\<rparr>)"
  by (auto simp: sendToLoggly_end_def)

lemma resume_auth:
  assumes "status = 401 \<or> status = 403" "T fid = Responds status txt"
  shows "fst (sendWithRetry_resume T w d t eid attempt delay fid)
           = Inl (Error (lit ''Authentication failed - invalid token''))
       \<and> \<not> isTokenValid (snd (sendWithRetry_resume T w d t eid attempt delay fid))
       \<and> fetches (snd (sendWithRetry_resume T w d t eid attempt delay fid)) = fetches w"
  using assms
  by (subst (1 2 3) sendWithRetry_resume.simps)
     (simp add: sendToLoggly_end_auth auth_error_not_retryable)

lemma sendToLoggly_auth:
  assumes "status = 401 \<or> status = 403" "T (fetches w) = Responds status txt"
  shows "sendToLoggly T w d t
           = (Inl (Error (lit ''Authentication failed - invalid token'')),
              (sendToLoggly_begin w d t)\<lparr>isTokenValid := False\<rparr>)"
  using assms by (simp add: sendToLoggly_def sendToLoggly_end_auth)

text \<open>
  Claim C2. A response with status 401 or 403 makes \<open>sendToLoggly\<close> clear the token-valid
  flag and throw; \<open>sendWithRetry\<close> then fails with that error at whatever attempt it is, after
  exactly one call of \<open>fetch\<close>. Once the flag is cleared it stays cleared through every
  sequence of calls and timer ticks, run one after the other or interleaved. While it is
  cleared, \<open>log\<close> returns at once: the callback, if there is one, gets the error
  \<open>Invalid token - authentication failed\<close>, nothing else changes, no send is started and
  \<open>fetch\<close> is not called; and \<open>retryFailedLogs\<close> returns without touching anything.
\<close>

theorem auth_failure_is_terminal:
  "((status = 401 \<or> status = 403) \<and> T (fetches w) = Responds status txt \<longrightarrow>
       sendToLoggly T w d t
         = (Inl (Error (lit ''Authentication failed - invalid token'')),
            (sendToLoggly_begin w d t)\<lparr>isTokenValid := False\<rparr>)
     \<and> fst (sendWithRetry T w d t eid attempt delay)
         = Inl (Error (lit ''Authentication failed - invalid token''))
     \<and> \<not> isTokenValid (snd (sendWithRetry T w d t eid attempt delay))
     \<and> fetches (snd (sendWithRetry T w d t eid attempt delay)) = Suc (fetches w))
   \<and> (\<not> isTokenValid v \<longrightarrow>
       \<not> isTokenValid (run T' P v calls)
     \<and> log_sync P v data tg cb
         = (Inr (), invoke (snd (resolve_arguments tg cb))
                      (Some (Error (lit ''Invalid token - authentication failed''))) None v, None)
     \<and> log T' P v data tg cb
         = (Inr (), invoke (snd (resolve_arguments tg cb))
                      (Some (Error (lit ''Invalid token - authentication failed''))) None v)
     \<and> fetches (snd (log T' P v data tg cb)) = fetches v
     \<and> retryFailedLogs T' v = (Inr (), v))
   \<and> (\<not> isTokenValid (client s) \<longrightarrow> \<not> isTokenValid (client (interleave T' s evs)))"
proof (intro conjI impI)
  assume a: "(status = 401 \<or> status = 403) \<and> T (fetches w) = Responds status txt"
  show "sendToLoggly T w d t
         = (Inl (Error (lit ''Authentication failed - invalid token'')),
            (sendToLoggly_begin w d t)\<lparr>isTokenValid := False\<rparr>)"
    using a sendToLoggly_auth [of status T w "txt" d t] by blast
  have r: "fst (sendWithRetry_resume T (sendToLoggly_begin w d t) d t eid attempt delay (fetches w))
           = Inl (Error (lit ''Authentication failed - invalid token''))
       \<and> \<not> isTokenValid (snd (sendWithRetry_resume T (sendToLoggly_begin w d t) d t eid attempt delay (fetches w)))
       \<and> fetches (snd (sendWithRetry_resume T (sendToLoggly_begin w d t) d t eid attempt delay (fetches w)))
           = fetches (sendToLoggly_begin w d t)"
    using a by (intro resume_auth [of status T "fetches w" "txt"]) simp_all
  show "fst (sendWithRetry T w d t eid attempt delay)
         = Inl (Error (lit ''Authentication failed - invalid token''))"
    using r by (simp add: sendWithRetry_def)
  show "\<not> isTokenValid (snd (sendWithRetry T w d t eid attempt delay))"
    using r by (simp add: sendWithRetry_def)
  show "fetches (snd (sendWithRetry T w d t eid attempt delay)) = Suc (fetches w)"
    using r by (simp add: sendWithRetry_def)
next
  assume n: "\<not> isTokenValid v"
  show "\<not> isTokenValid (run T' P v calls)" using n by (rule run_invalid)
  show "log_sync P v data tg cb
         = (Inr (), invoke (snd (resolve_arguments tg cb))
                      (Some (Error (lit ''Invalid token - authentication failed''))) None v, None)"
    using n by (rule log_sync_invalid)
  show "log T' P v data tg cb
         = (Inr (), invoke (snd (resolve_arguments tg cb))
                      (Some (Error (lit ''Invalid token - authentication failed''))) None v)"
    using n by (rule log_invalid)
  show "fetches (snd (log T' P v data tg cb)) = fetches v"
    using n by (simp add: log_invalid)
  show "retryFailedLogs T' v = (Inr (), v)" using n by (rule retryFailedLogs_invalid)
next
  assume "\<not> isTokenValid (client s)"
  then show "\<not> isTokenValid (client (interleave T' s evs))" by (rule interleave_invalid)
qed

theorem auth_failure_is_terminal_witness:
  "(401 = (401::nat) \<or> 401 = (403::nat))
   \<and> always_401 (fetches (fresh_client default_config)) = Responds 401 (Inr [])
   \<and> \<not> isTokenValid (snd (sendWithRetry always_401 (fresh_client default_config) (lit ''a=1'') None None
                               1 initialRetryDelay))
   \<and> fetches (snd (sendWithRetry always_401 (fresh_client default_config) (lit ''a=1'') None None
                      1 initialRetryDelay)) = 1
   \<and> \<not> isTokenValid tripped_client
   \<and> \<not> isTokenValid (run always_ok sample_platform tripped_client
                         [Call_log (Text (lit ''a=1'')) Tags_undefined (Some 7), Call_flush])
   \<and> log always_ok sample_platform tripped_client (Text (lit ''a=1'')) (Tags_function 7) None
       = (Inr (), tripped_client
                    \<lparr>trace := [Invoke 7 (Some (Error (lit ''Invalid token - authentication failed'')))
                                 None]\<rparr>)
   \<and> retryFailedLogs always_ok tripped_client = (Inr (), tripped_client)
   \<and> \<not> isTokenValid (client \<lparr>client = tripped_client, in_flight = [], launched = []\<rparr>)
   \<and> \<not> isTokenValid (client (interleave always_ok
                                  \<lparr>client = tripped_client, in_flight = [], launched = []\<rparr>
                                  [Ev_enqueue (lit ''a=1''), Ev_batch_timer, Ev_settle 0]))"
  using auth_failure_is_terminal
          [of 401 always_401 "fresh_client default_config" "Inr []" "lit ''a=1''" None None
               1 initialRetryDelay tripped_client always_ok sample_platform
               "[Call_log (Text (lit ''a=1'')) Tags_undefined (Some 7), Call_flush]"
               "Text (lit ''a=1'')" "Tags_function 7" None
               "\<lparr>client = tripped_client, in_flight = [], launched = []\<rparr>"
               "[Ev_enqueue (lit ''a=1''), Ev_batch_timer, Ev_settle 0]"]
  by (simp add: always_401_def tripped_client_def fresh_client_def resolve_arguments_def
      invoke_def emit_def)

section \<open>The failed-logs buffer is bounded and evicts the oldest entries\<close>

lemma to_integer_of_nat [simp]: "to_integer (of_nat k) = int k"
  by (simp add: to_integer_def)

lemma slice_from_of_nat [simp]: "slice_from (Finite (of_nat k)) xs = drop k xs"
  by simp

text \<open>
  When the size is a whole number \<open>n\<close>, then whatever the buffer held, after
  \<open>addToFailedBuffer\<close> it holds the last \<open>n\<close> entries of the old buffer followed by the new
  messages: the three branches of the source agree with one \<open>drop\<close> from the front.
\<close>

lemma addToFailedBuffer_suffix:
  assumes "bufferOptions (config w) = Some bo" "bo_size bo = of_length n"
  shows "failedLogsBuffer (addToFailedBuffer w ms)
           = drop (length (failedLogsBuffer w) + length ms - n) (failedLogsBuffer w @ ms)"
proof -
  let ?b = "failedLogsBuffer w"
  let ?a = "length ?b + length ms"
  have size: "bo_size bo = Finite (of_nat n)"
    using assms(2) by (simp add: of_length_def)
  consider (fits) "?a \<le> n"
    | (trim) "?a > n" "?a - n \<le> length ?b"
    | (clear) "?a > n" "?a - n > length ?b"
    by linarith
  then show ?thesis
  proof cases
    case fits
    then have "\<not> (of_nat n :: rat) < of_nat ?a"
      by simp
    then show ?thesis
      using assms(1) size fits by (simp add: addToFailedBuffer_def of_length_def)
  next
    case trim
    have gt: "(of_nat n :: rat) < of_nat ?a"
      using trim(1) by (simp only: of_nat_less_iff)
    have ov: "(of_nat ?a :: rat) - of_nat n = of_nat (?a - n)"
      using trim(1) by (simp add: of_nat_diff)
    have pos: "(0::rat) < of_nat (?a - n)"
      using trim(1) by simp
    have le: "(of_nat (?a - n) :: rat) \<le> of_nat (length ?b)"
      using trim(2) by (simp only: of_nat_le_iff)
    have "failedLogsBuffer (addToFailedBuffer w ms) = drop (?a - n) ?b @ ms"
      using gt pos le
      by (simp only: addToFailedBuffer_def assms(1) size Let_def of_length_def option.case
          number_less.simps number_minus.simps number_le_def ov slice_from_of_nat)
         simp
    then show ?thesis
      using trim(2) by simp
  next
    case clear
    have gt: "(of_nat n :: rat) < of_nat ?a"
      using clear(1) by (simp only: of_nat_less_iff)
    have ov: "(of_nat ?a :: rat) - of_nat n = of_nat (?a - n)"
      using clear(1) by (simp add: of_nat_diff)
    have big: "(of_nat (length ?b) :: rat) < of_nat (?a - n)"
      using clear(2) by (simp only: of_nat_less_iff)
    then have nle: "\<not> (of_nat (?a - n) :: rat) \<le> of_nat (length ?b)"
      "(of_nat (?a - n) :: rat) \<noteq> of_nat (length ?b)"
      by simp_all
    have more: "length ms > n"
      using clear by simp
    then have mx: "Math_max (Finite 0) (Finite ((of_nat (length ms) :: rat) - of_nat n))
                     = Finite (of_nat (length ms - n))"
      by (simp add: of_nat_diff Math_max_def)
    have "failedLogsBuffer (addToFailedBuffer w ms) = drop (length ms - n) ms"
      using gt big nle
      by (simp only: addToFailedBuffer_def assms(1) size Let_def of_length_def option.case
          number_less.simps number_minus.simps number_le_def ov mx slice_from_of_nat)
         simp
    moreover have "?a - n - length ?b = length ms - n"
      using clear by simp
    ultimately show ?thesis
      using clear(2) by simp
  qed
qed

lemma addToFailedBuffer_length:
  assumes "bufferOptions (config w) = Some bo" "bo_size bo = of_length n"
  shows "length (failedLogsBuffer (addToFailedBuffer w ms)) \<le> n"
  by (simp add: addToFailedBuffer_suffix [OF assms])

lemma foldl_addToFailedBuffer_length:
  assumes "bufferOptions (config w) = Some bo" "bo_size bo = of_length n"
    "length (failedLogsBuffer w) \<le> n"
  shows "length (failedLogsBuffer (foldl addToFailedBuffer w batches)) \<le> n"
  using assms
proof (induction batches arbitrary: w)
  case Nil
  then show ?case by simp
next
  case (Cons ms batches)
  show ?case
    using Cons.IH [of "addToFailedBuffer w ms"] Cons.prems
    by (simp add: addToFailedBuffer_length)
qed

text \<open>
  Claim C3, for the sizes that are whole numbers. With buffer options whose size is the
  whole number \<open>n\<close>: after one \<open>addToFailedBuffer\<close> the buffer has at most \<open>n\<close> entries, and so
  it has after any sequence of calls on a buffer that was within capacity; the new buffer is
  the old one followed by the new messages with entries dropped from the front only, so the
  oldest go first and the newest never while an older one stays; and a batch that alone
  exceeds the capacity leaves exactly its last \<open>n\<close> messages in the buffer.
\<close>

theorem addToFailedBuffer_bounded_fifo:
  assumes "bufferOptions (config w) = Some bo" "bo_size bo = of_length n"
  shows "length (failedLogsBuffer (addToFailedBuffer w ms)) \<le> n
       \<and> (length (failedLogsBuffer w) \<le> n \<longrightarrow>
            length (failedLogsBuffer (foldl addToFailedBuffer w batches)) \<le> n)
       \<and> failedLogsBuffer (addToFailedBuffer w ms)
           = drop (length (failedLogsBuffer w) + length ms - n) (failedLogsBuffer w @ ms)
       \<and> (length ms > n \<longrightarrow>
            failedLogsBuffer (addToFailedBuffer w ms) = drop (length ms - n) ms
          \<and> length (failedLogsBuffer (addToFailedBuffer w ms)) = n)"
  using addToFailedBuffer_length [OF assms] foldl_addToFailedBuffer_length [OF assms]
    addToFailedBuffer_suffix [OF assms]
  by auto

theorem addToFailedBuffer_bounded_fifo_witness:
  "bufferOptions (config small_buffer_client) = Some small_buffer
   \<and> bo_size small_buffer = of_length 2
   \<and> length (failedLogsBuffer small_buffer_client) \<le> 2
   \<and> 2 < length [lit ''b'', lit ''c'', lit ''d'']
   \<and> failedLogsBuffer (addToFailedBuffer small_buffer_client [lit ''b'', lit ''c'', lit ''d''])
       = [lit ''c'', lit ''d'']
   \<and> length (failedLogsBuffer (foldl addToFailedBuffer small_buffer_client
               [[lit ''b''], [lit ''c'', lit ''d'']])) \<le> 2"
proof -
  have h: "bufferOptions (config small_buffer_client) = Some small_buffer"
    by (simp add: small_buffer_client_def fresh_client_def default_config_def)
  have n: "bo_size small_buffer = of_length 2"
    by (simp add: small_buffer_def of_length_def)
  show ?thesis
    using addToFailedBuffer_bounded_fifo
            [OF h n, of "[lit ''b'', lit ''c'', lit ''d'']" "[[lit ''b''], [lit ''c'', lit ''d'']]"] h n
    by (simp add: small_buffer_client_def fresh_client_def)
qed

text \<open>
  Claim C3 as it is stated, for every size, fails for a size that is not a whole number.
  With size 2.5 and one entry in the buffer, adding three messages gives an overflow of 1.5,
  more than the buffer holds: the buffer is cleared, \<open>slice(0.5)\<close> keeps all three messages,
  and the buffer ends with three entries, more than its size.
\<close>

theorem addToFailedBuffer_exceeds_fractional_size:
  "bufferOptions (config fractional_buffer_client)
     = Some \<lparr>bo_size = Finite (5 / 2), retriesInMilliSeconds = Finite 30000\<rparr>
   \<and> failedLogsBuffer fractional_buffer_client = [lit ''a'']
   \<and> failedLogsBuffer (addToFailedBuffer fractional_buffer_client [lit ''b'', lit ''c'', lit ''d''])
       = [lit ''b'', lit ''c'', lit ''d'']
   \<and> number_less (Finite (5 / 2))
       (of_length (length (failedLogsBuffer
                     (addToFailedBuffer fractional_buffer_client [lit ''b'', lit ''c'', lit ''d'']))))"
proof -
  have b: "failedLogsBuffer (addToFailedBuffer fractional_buffer_client [lit ''b'', lit ''c'', lit ''d''])
             = [lit ''b'', lit ''c'', lit ''d'']"
    by (simp add: addToFailedBuffer_def fractional_buffer_client_def fresh_client_def
        default_config_def to_integer_def Let_def of_length_def number_le_def Math_max_def)
  show ?thesis
    by (simp add: b of_length_def)
       (simp add: fractional_buffer_client_def fresh_client_def default_config_def)
qed

section \<open>Interleaved flushes\<close>

lemma sendBatch_begin_empty:
  "batchQueue w = [] \<Longrightarrow> sendBatch_begin w = (w\<lparr>batchTimer := None\<rparr>, None)"
  by (simp add: sendBatch_begin_def)

lemma sendBatch_begin_nonempty:
  "batchQueue w \<noteq> [] \<Longrightarrow>
   \<exists>p. snd (sendBatch_begin w) = Some p \<and> snapshot p = batchQueue w
       \<and> p_data p = join newline (batchQueue w) \<and> p_eventId p = Some (eventId w)"
  by (simp add: sendBatch_begin_def Let_def snapshot_def)

lemma sendBatch_begin_again:
  "sendBatch_begin (fst (sendBatch_begin w)) = (fst (sendBatch_begin w), None)"
proof -
  let ?w = "fst (sendBatch_begin w)"
  have "batchQueue ?w = []" "batchTimer ?w = None" by simp_all
  then have "sendBatch_begin ?w = (?w\<lparr>batchTimer := None\<rparr>, None)" "?w\<lparr>batchTimer := None\<rparr> = ?w"
    by (simp_all add: sendBatch_begin_empty)
  then show ?thesis by simp
qed

lemma sendBatch_empty:
  "batchQueue w = [] \<Longrightarrow> sendBatch T w = (Inr (), w\<lparr>batchTimer := None\<rparr>)"
  by (simp add: sendBatch_def sendBatch_begin_empty)

lemma accounted_launch_sendBatch:
  "accounted (launch s (sendBatch_begin w))
     = concat (map snapshot (launched s)) @ batchQueue w"
proof (cases "batchQueue w = []")
  case True
  then show ?thesis by (simp add: accounted_def launch_def sendBatch_begin_empty)
next
  case False
  then show ?thesis
    by (simp add: accounted_def launch_def sendBatch_begin_def Let_def snapshot_def)
qed

lemma accounted_step: "accounted (step T s ev) = accounted s @ enqueued [ev]"
proof (cases ev)
  case (Ev_enqueue msg)
  let ?w2 = "if batchTimer (client s) = None
             then (client s)\<lparr>batchQueue := batchQueue (client s) @ [msg], batchTimer := Some (Timeout 5000)\<rparr>
             else (client s)\<lparr>batchQueue := batchQueue (client s) @ [msg]\<rparr>"
  have q: "batchQueue ?w2 = batchQueue (client s) @ [msg]" by simp
  show ?thesis
  proof (cases "length (batchQueue ?w2) \<ge> 100")
    case True
    then have "addToBatchQueue (client s) msg = sendBatch_begin ?w2"
      by (simp add: addToBatchQueue_def Let_def)
    then show ?thesis
      using Ev_enqueue accounted_launch_sendBatch [of s ?w2] q
      by (simp add: step_def enqueued_def accounted_def)
  next
    case False
    then have "addToBatchQueue (client s) msg = (?w2, None)"
      by (simp add: addToBatchQueue_def Let_def)
    then show ?thesis
      using Ev_enqueue q by (simp add: step_def enqueued_def accounted_def launch_def)
  qed
next
  case Ev_batch_timer
  then show ?thesis
    using accounted_launch_sendBatch [of s "client s"]
    by (simp add: step_def enqueued_def accounted_def)
next
  case (Ev_settle k)
  then show ?thesis
    by (simp add: step_def enqueued_def accounted_def)
qed

lemma enqueued_Cons: "enqueued (ev # evs) = enqueued [ev] @ enqueued evs"
  by (simp add: enqueued_def)

lemma accounted_interleave: "accounted (interleave T s evs) = accounted s @ enqueued evs"
proof (induction evs arbitrary: s)
  case Nil
  show ?case by (simp add: interleave_def enqueued_def)
next
  case (Cons ev evs)
  have "interleave T s (ev # evs) = interleave T (step T s ev) evs"
    by (simp add: interleave_def)
  then show ?case
    using Cons [of "step T s ev"] accounted_step [of T s ev] enqueued_Cons [of ev evs] by simp
qed

lemma nearly_full_run:
  "map snapshot (launched (interleave always_ok nearly_full_system
                             [Ev_enqueue (lit ''last''), Ev_batch_timer, Ev_settle 0]))
     = [replicate 99 (lit ''m'') @ [lit ''last'']]"
  "batchQueue (client (interleave always_ok nearly_full_system
                             [Ev_enqueue (lit ''last''), Ev_batch_timer, Ev_settle 0])) = []"
  "in_flight (interleave always_ok nearly_full_system
                             [Ev_enqueue (lit ''last''), Ev_batch_timer, Ev_settle 0]) = []"
  by (simp_all add: interleave_def step_def launch_def nearly_full_system_def fresh_client_def
      addToBatchQueue_def sendBatch_begin_def Let_def snapshot_def)

text \<open>
  Claim C4. When \<open>sendBatch\<close> reaches its first suspension point the batch timer is null and
  the batch queue is empty; if the queue was not empty, the suspended send holds the queue
  as it was, joined by newlines, as its payload. A \<open>sendBatch\<close> started at that point, by
  the timer or by the threshold, finds nothing to send and changes nothing. On an empty
  queue \<open>sendBatch\<close> only nulls the timer: no request, no effect. And for every interleaving
  of queueing, timer firings and resumed sends, the snapshots of the sends started, one after
  the other, followed by the entries still queued, are exactly the entries that were accounted
  for at the start followed by the entries queued since, each once and in order: no entry
  is in two snapshots.
\<close>

theorem batch_snapshot_sent_once:
  "batchTimer (fst (sendBatch_begin w)) = None
   \<and> batchQueue (fst (sendBatch_begin w)) = []
   \<and> (batchQueue w \<noteq> [] \<longrightarrow>
        (\<exists>p. snd (sendBatch_begin w) = Some p \<and> snapshot p = batchQueue w
            \<and> p_data p = join newline (batchQueue w) \<and> p_eventId p = Some (eventId w)))
   \<and> sendBatch_begin (fst (sendBatch_begin w)) = (fst (sendBatch_begin w), None)
   \<and> (batchQueue w = [] \<longrightarrow> sendBatch T w = (Inr (), w\<lparr>batchTimer := None\<rparr>))
   \<and> concat (map snapshot (launched (interleave T s evs))) @ batchQueue (client (interleave T s evs))
       = concat (map snapshot (launched s)) @ batchQueue (client s) @ enqueued evs"
  using sendBatch_begin_nonempty [of w] sendBatch_begin_again [of w] sendBatch_empty [of w T]
    accounted_interleave [of T s evs]
  by (simp add: accounted_def)

theorem batch_snapshot_sent_once_witness:
  "batchQueue pending_client \<noteq> []
   \<and> map_option snapshot (snd (sendBatch_begin pending_client))
       = Some [lit ''message1'', lit ''message2'']
   \<and> batchQueue (fst (sendBatch_begin pending_client)) = []
   \<and> batchTimer (fst (sendBatch_begin pending_client)) = None
   \<and> batchQueue (fresh_client default_config) = []
   \<and> sendBatch always_ok (fresh_client default_config) = (Inr (), fresh_client default_config)
   \<and> concat (map snapshot (launched (interleave always_ok nearly_full_system
                 [Ev_enqueue (lit ''last''), Ev_batch_timer, Ev_settle 0])))
       @ batchQueue (client (interleave always_ok nearly_full_system
                 [Ev_enqueue (lit ''last''), Ev_batch_timer, Ev_settle 0]))
       = replicate 99 (lit ''m'') @ [lit ''last'']
   \<and> map snapshot (launched (interleave always_ok nearly_full_system
                 [Ev_enqueue (lit ''last''), Ev_batch_timer, Ev_settle 0]))
       = [replicate 99 (lit ''m'') @ [lit ''last'']]"
proof -
  have q: "batchQueue pending_client = [lit ''message1'', lit ''message2'']"
    "batchQueue (fresh_client default_config) = []"
    "(fresh_client default_config)\<lparr>batchTimer := None\<rparr> = fresh_client default_config"
    "launched nearly_full_system = []"
    "batchQueue (client nearly_full_system) = replicate 99 (lit ''m'')"
    by (simp_all add: pending_client_def fresh_client_def nearly_full_system_def)
  have e: "enqueued [Ev_enqueue (lit ''last''), Ev_batch_timer, Ev_settle 0] = [lit ''last'']"
    by (simp add: enqueued_def)
  show ?thesis
    using batch_snapshot_sent_once [of pending_client always_ok nearly_full_system
                 "[Ev_enqueue (lit ''last''), Ev_batch_timer, Ev_settle 0]"]
      batch_snapshot_sent_once [of "fresh_client default_config" always_ok nearly_full_system
                 "[Ev_enqueue (lit ''last''), Ev_batch_timer, Ev_settle 0]"]
      nearly_full_run(1)
    by (auto simp: q e)
qed

section \<open>Flushing\<close>







lemma requests_append [simp]: "requests (xs @ ys) = requests xs @ requests ys"
  by (induction xs rule: requests.induct) simp_all

lemma requests_since_diagnostic [simp]: "requests (since w (diagnostic l m a w)) = []"
  by (simp add: diagnostic_def)











section \<open>Truncation\<close>

lemma byteLength_Cons_three:
  "\<not> c < 0x80 \<Longrightarrow> \<not> c < 0x800 \<Longrightarrow> \<not> is_high_surrogate c
     \<Longrightarrow> byteLength (c # cs) = 3 + byteLength cs"
  by (cases cs) simp_all

lemma byteLength_replicate_three:
  "\<not> c < 0x80 \<Longrightarrow> \<not> c < 0x800 \<Longrightarrow> \<not> is_high_surrogate c
     \<Longrightarrow> byteLength (replicate n c) = 3 * n"
  by (induction n) (simp_all add: byteLength_Cons_three)

lemma euro_three: "\<not> euro < 0x80" "\<not> euro < 0x800" "\<not> is_high_surrogate euro"
  by (simp_all add: euro_def is_high_surrogate_def)

lemma byteLength_ascii: "\<forall>c\<in>set m. c < 0x80 \<Longrightarrow> byteLength m = length m"
  by (induction m rule: byteLength.induct) simp_all

lemma byteLength_le: "byteLength m \<le> 3 * length m"
proof (induction m rule: byteLength.induct)
  case 1
  show ?case by simp
next
  case (2 c)
  show ?case by simp
next
  case (3 c d cs)
  show ?case
  proof (cases "c < 0x80")
    case True
    then show ?thesis using "3.IH"(1) by simp
  next
    case a: False
    show ?thesis
    proof (cases "c < 0x800")
      case True
      then show ?thesis using a "3.IH"(2) by simp
    next
      case b: False
      show ?thesis
      proof (cases "is_high_surrogate c \<and> is_low_surrogate d")
        case True
        then show ?thesis using a b "3.IH"(3) by simp
      next
        case False
        then show ?thesis using a b "3.IH"(4) by auto
      qed
    qed
  qed
qed

lemma truncateLargeMessage_short:
  "3 * length m \<le> EVENT_SIZE \<Longrightarrow> truncateLargeMessage m = \<lparr>message = m, isMessageTruncated = False\<rparr>"
  using byteLength_le [of m] by (simp add: truncateLargeMessage_def)

text \<open>On a payload of code units below U+0080 the cut is at 1,000,000 bytes.\<close>

lemma truncateLargeMessage_ascii:
  assumes "\<forall>c\<in>set m. c < 0x80" "byteLength m > EVENT_SIZE"
  shows "byteLength (message (truncateLargeMessage m)) = EVENT_SIZE"
proof -
  have "\<forall>c\<in>set (take EVENT_SIZE m). c < 0x80"
    using assms(1) by (meson in_set_takeD)
  then have "byteLength (take EVENT_SIZE m) = length (take EVENT_SIZE m)"
    by (rule byteLength_ascii)
  moreover have "length m > EVENT_SIZE"
    using assms by (simp add: byteLength_ascii)
  ultimately show ?thesis
    using assms(2) by (simp add: truncateLargeMessage_def)
qed

text \<open>
  Claim C6, at a payload of 400,000 euro signs. It has 1,200,000 bytes, so
  \<open>truncateLargeMessage\<close> reports it truncated; \<open>slice(0, EVENT_SIZE)\<close> counts code units, of
  which there are fewer than 1,000,000, and returns the payload whole. A payload of
  1,200,000 euro signs is cut to 1,000,000 code units, which are 3,000,000 bytes.
\<close>

theorem truncateLargeMessage_counts_code_units:
  "byteLength (replicate 400000 euro) = 1200000
   \<and> truncateLargeMessage (replicate 400000 euro)
       = \<lparr>message = replicate 400000 euro, isMessageTruncated = True\<rparr>
   \<and> byteLength (message (truncateLargeMessage (replicate 1200000 euro))) = 3000000"
  by (simp add: truncateLargeMessage_def EVENT_SIZE_def byteLength_replicate_three [OF euro_three])

section \<open>Formatting errors\<close>




lemma log_sync_returns: "fst (log_sync P w data tg cb) = Inr ()"
  by (simp add: log_sync_def Let_def split: prod.splits sum.splits)

lemma log_returns: "fst (log T P w data tg cb) = Inr ()"
  using log_sync_returns [of P w data tg cb]
  by (auto simp: log_def split: prod.splits option.splits)




section \<open>Immediate mode\<close>

lemma log_immediate:
  assumes "\<not> isBulk (config w)" "isTokenValid w" "format_payload P (config w) data = Inr formatted"
    and "sendWithRetry T (truncation_warning w (truncateLargeMessage formatted))
           (message (truncateLargeMessage formatted))
           (Some (tags_of (fst (resolve_arguments tg cb)))) None 1 initialRetryDelay = (r, w2)"
  shows "log T P w data tg cb =
           (Inr (),
            case r of
              Inr resp \<Rightarrow>
                if statusCode resp = 200
                then invoke (snd (resolve_arguments tg cb)) None (Some (response resp))
                       (emit (Emit_log (Log_body (response resp))) w2)
                else emit (Console Err (lit ''Error sending log to Loggly: ''
                                         @ lit (decimal (statusCode resp))) []) w2
            | Inl error \<Rightarrow> invoke (snd (resolve_arguments tg cb)) (Some (unspecified_error error)) None w2)"
proof -
  obtain tgs c where ra: "resolve_arguments tg cb = (tgs, c)"
    by (cases "resolve_arguments tg cb")
  let ?t = "truncateLargeMessage formatted"
  let ?w1 = "truncation_warning w ?t"
  let ?p = "\<lparr>p_owner = Owner_log c, p_data = message ?t, p_tags = Some (tags_of tgs),
             p_eventId = None, p_fetch = fetches ?w1\<rparr>"
  have ls: "log_sync P w data tg cb
              = (Inr (), sendToLoggly_begin ?w1 (message ?t) (Some (tags_of tgs)), Some ?p)"
    using assms(1-3) by (simp add: log_sync_def ra Let_def)
  have rs: "sendWithRetry_resume T (sendToLoggly_begin ?w1 (message ?t) (Some (tags_of tgs)))
              (message ?t) (Some (tags_of tgs)) None 1 initialRetryDelay (fetches ?w1) = (r, w2)"
    using assms(4) by (simp add: sendWithRetry_def ra)
  show ?thesis
    using rs unfolding log_def ls by (simp add: settle_def ra split: sum.splits)
qed

lemma immediate_client_facts:
  "\<not> isBulk (config immediate_client)" "isTokenValid immediate_client"
  "format_payload sample_platform (config immediate_client) (Text (lit ''a=1'')) = Inr (lit ''a=1'')"
  "truncateLargeMessage (lit ''a=1'') = \<lparr>message = lit ''a=1'', isMessageTruncated = False\<rparr>"
  "trace immediate_client = []"
  by (simp_all add: immediate_client_def fresh_client_def default_config_def format_payload_def
      formatLogData_def sample_platform_def truncateLargeMessage_short EVENT_SIZE_def)

lemma immediate_send:
  "sendWithRetry always_ok immediate_client (lit ''a=1'') (Some []) None 1 initialRetryDelay
     = (Inr \<lparr>response = lit ''success'', statusCode = 200\<rparr>,
        sendToLoggly_begin immediate_client (lit ''a=1'') (Some []))"
  "sendWithRetry always_201 immediate_client (lit ''a=1'') (Some []) None 1 initialRetryDelay
     = (Inr \<lparr>response = lit ''ok'', statusCode = 201\<rparr>,
        sendToLoggly_begin immediate_client (lit ''a=1'') (Some []))"
  "sendWithRetry always_500 immediate_client (lit ''a=1'') (Some []) None 1 initialRetryDelay
     = (Inl (Error (lit ''HTTP Error: '' @ lit (decimal 500))),
        sendToLoggly_begin immediate_client (lit ''a=1'') (Some []))"
  by (simp_all add: sendWithRetry_def sendWithRetry_resume.simps sendToLoggly_end_def
      always_ok_def always_201_def always_500_def proxy_configured_def immediate_client_def
      fresh_client_def default_config_def maxRetries_def http_error_not_retryable)

text \<open>
  Claim C8 as the source has it. In immediate mode, with a valid token and a value that
  formats, let the send that \<open>log\<close> makes through \<open>sendWithRetry\<close> end with result \<open>r\<close> in
  state \<open>w2\<close>. If \<open>r\<close> is a response with status 200, \<open>log\<close> emits \<open>log\<close> with the response
  body and then calls the callback with no error and the body. If it is a response with
  another status, \<open>log\<close> prints an error line and does neither. If the send failed, \<open>log\<close>
  calls the callback with an error that wraps the failure, and nothing in the trace since
  the call is a \<open>log\<close> notification.
\<close>

theorem immediate_log_reports_status_200:
  assumes "\<not> isBulk (config w)" "isTokenValid w" "format_payload P (config w) data = Inr formatted"
    and "sendWithRetry T (truncation_warning w (truncateLargeMessage formatted))
           (message (truncateLargeMessage formatted))
           (Some (tags_of (fst (resolve_arguments tg cb)))) None 1 initialRetryDelay = (r, w2)"
  shows "(\<forall>resp. r = Inr resp \<and> statusCode resp = 200 \<longrightarrow>
            log T P w data tg cb
              = (Inr (), invoke (snd (resolve_arguments tg cb)) None (Some (response resp))
                           (emit (Emit_log (Log_body (response resp))) w2)))
       \<and> (\<forall>resp. r = Inr resp \<and> statusCode resp \<noteq> 200 \<longrightarrow>
            log T P w data tg cb
              = (Inr (), emit (Console Err (lit ''Error sending log to Loggly: ''
                                             @ lit (decimal (statusCode resp))) []) w2))
       \<and> (\<forall>error. r = Inl error \<longrightarrow>
            log T P w data tg cb
              = (Inr (), invoke (snd (resolve_arguments tg cb)) (Some (unspecified_error error)) None w2)
          \<and> (\<forall>x. Emit_log x \<notin> set (drop (length (trace w)) (trace (snd (log T P w data tg cb))))))"
proof -
  let ?w1 = "truncation_warning w (truncateLargeMessage formatted)"
  have "same_client w ?w1"
    by (rule same_client_truncation_warning)
  moreover have "same_client ?w1 w2"
    using same_client_sendWithRetry [of ?w1 T "message (truncateLargeMessage formatted)"
            "Some (tags_of (fst (resolve_arguments tg cb)))" None 1 initialRetryDelay]
      assms(4) by simp
  ultimately have sc: "same_client w w2"
    by (rule same_client_trans)
  then obtain es where es: "trace w2 = trace w @ es" "\<forall>e\<in>set es. quiet e"
    by (auto simp: same_client_def)
  have ne: "Emit_log x \<notin> set (drop (length (trace w)) (trace (invoke c (Some e) None w2)))" for x c e
    using es by (cases c) (auto simp: invoke_def quiet_def)
  show ?thesis
    using log_immediate [OF assms] ne by simp
qed

theorem immediate_log_reports_status_200_witness:
  "\<not> isBulk (config immediate_client) \<and> isTokenValid immediate_client
   \<and> format_payload sample_platform (config immediate_client) (Text (lit ''a=1'')) = Inr (lit ''a=1'')
   \<and> fst (sendWithRetry always_ok immediate_client (lit ''a=1'') (Some []) None 1 initialRetryDelay)
       = Inr \<lparr>response = lit ''success'', statusCode = 200\<rparr>
   \<and> trace (snd (log always_ok sample_platform immediate_client (Text (lit ''a=1''))
                    Tags_undefined (Some 7)))
       = [Fetch (build_request (config immediate_client) (lit ''a=1'') (Some [])),
          Emit_log (Log_body (lit ''success'')), Invoke 7 None (Some (lit ''success''))]
   \<and> fst (sendWithRetry always_201 immediate_client (lit ''a=1'') (Some []) None 1 initialRetryDelay)
       = Inr \<lparr>response = lit ''ok'', statusCode = 201\<rparr>
   \<and> trace (snd (log always_201 sample_platform immediate_client (Text (lit ''a=1''))
                    Tags_undefined (Some 7)))
       = [Fetch (build_request (config immediate_client) (lit ''a=1'') (Some [])),
          Console Err (lit ''Error sending log to Loggly: '' @ lit (decimal 201)) []]
   \<and> fst (sendWithRetry always_500 immediate_client (lit ''a=1'') (Some []) None 1 initialRetryDelay)
       = Inl (Error (lit ''HTTP Error: '' @ lit (decimal 500)))
   \<and> trace (snd (log always_500 sample_platform immediate_client (Text (lit ''a=1''))
                    Tags_undefined (Some 7)))
       = [Fetch (build_request (config immediate_client) (lit ''a=1'') (Some [])),
          Invoke 7 (Some (unspecified_error (Error (lit ''HTTP Error: '' @ lit (decimal 500))))) None]"
proof -
  note f = immediate_client_facts
  have s:
    "sendWithRetry T (truncation_warning immediate_client (truncateLargeMessage (lit ''a=1'')))
       (message (truncateLargeMessage (lit ''a=1'')))
       (Some (tags_of (fst (resolve_arguments Tags_undefined (Some 7))))) None 1 initialRetryDelay
     = sendWithRetry T immediate_client (lit ''a=1'') (Some []) None 1 initialRetryDelay" for T
    by (simp add: f(4) truncation_warning_def resolve_arguments_def tags_of_def)
  have ok: "log always_ok sample_platform immediate_client (Text (lit ''a=1'')) Tags_undefined (Some 7)
              = (Inr (), invoke (Some 7) None (Some (lit ''success''))
                           (emit (Emit_log (Log_body (lit ''success'')))
                              (sendToLoggly_begin immediate_client (lit ''a=1'') (Some []))))"
    using immediate_log_reports_status_200 [OF f(1) f(2) f(3) trans [OF s immediate_send(1)]]
    by (simp add: resolve_arguments_def)
  have created: "log always_201 sample_platform immediate_client (Text (lit ''a=1'')) Tags_undefined (Some 7)
              = (Inr (), emit (Console Err (lit ''Error sending log to Loggly: '' @ lit (decimal 201)) [])
                           (sendToLoggly_begin immediate_client (lit ''a=1'') (Some [])))"
    using immediate_log_reports_status_200 [OF f(1) f(2) f(3) trans [OF s immediate_send(2)]]
    by (simp add: resolve_arguments_def)
  have failed: "log always_500 sample_platform immediate_client (Text (lit ''a=1'')) Tags_undefined (Some 7)
              = (Inr (), invoke (Some 7)
                           (Some (unspecified_error (Error (lit ''HTTP Error: '' @ lit (decimal 500)))))
                           None (sendToLoggly_begin immediate_client (lit ''a=1'') (Some [])))"
    using immediate_log_reports_status_200 [OF f(1) f(2) f(3) trans [OF s immediate_send(3)]]
    by (simp add: resolve_arguments_def)
  show ?thesis
    using immediate_send by (simp add: ok created failed f invoke_def)
qed

text \<open>
  Claim C8 as stated fails at status 201: the send succeeds with a 2xx response, and \<open>log\<close>
  only prints \<open>Error sending log to Loggly: 201\<close>; the callback is not called and nothing
  is emitted.
\<close>

theorem immediate_log_silent_on_status_201:
  "fst (sendWithRetry always_201 immediate_client (lit ''a=1'') (Some []) None 1 initialRetryDelay)
     = Inr \<lparr>response = lit ''ok'', statusCode = 201\<rparr>
   \<and> trace (snd (log always_201 sample_platform immediate_client (Text (lit ''a=1''))
                    Tags_undefined (Some 7)))
     = [Fetch (build_request (config immediate_client) (lit ''a=1'') (Some [])),
        Console Err (lit ''Error sending log to Loggly: '' @ lit (decimal 201)) []]
   \<and> Invoke 7 None (Some (lit ''ok''))
       \<notin> set (trace (snd (log always_201 sample_platform immediate_client (Text (lit ''a=1''))
                               Tags_undefined (Some 7))))
   \<and> Emit_log (Log_body (lit ''ok''))
       \<notin> set (trace (snd (log always_201 sample_platform immediate_client (Text (lit ''a=1''))
                               Tags_undefined (Some 7))))"
proof -
  have t: "trace (snd (log always_201 sample_platform immediate_client (Text (lit ''a=1''))
                         Tags_undefined (Some 7)))
     = [Fetch (build_request (config immediate_client) (lit ''a=1'') (Some [])),
        Console Err (lit ''Error sending log to Loggly: '' @ lit (decimal 201)) []]"
    by (simp add: log_def log_sync_def resolve_arguments_def format_payload_def formatLogData_def
        sample_platform_def immediate_client_def fresh_client_def default_config_def
        truncateLargeMessage_short EVENT_SIZE_def truncation_warning_def tags_of_def
        settle_def sendWithRetry_def sendWithRetry_resume.simps sendToLoggly_end_def
        sendToLoggly_begin_def proxy_configured_def always_201_def emit_def initialRetryDelay_def
        Let_def)
  show ?thesis
    using immediate_send(2) by (simp add: t)
qed

section \<open>The proxy variables\<close>

lemma proxy_removed_on_success:
  "HTTPS_PROXY (snd (sendToLoggly (\<lambda>n. Responds 200 txt) (with_proxy w) data tgs)) = None
   \<and> HTTP_PROXY (snd (sendToLoggly (\<lambda>n. Responds 200 txt) (with_proxy w) data tgs)) = None"
  by (simp add: sendToLoggly_def sendToLoggly_begin_def sendToLoggly_end_def with_proxy_def
      proxy_configured_def emit_def Let_def split: sum.splits)

text \<open>
  Claim C9, at a request that fails. With a proxy configured, when \<open>fetch\<close> resolves with
  status 500 or rejects, \<open>sendToLoggly\<close> throws before it reaches the statements that delete
  the variables: \<open>HTTPS_PROXY\<close> and \<open>HTTP_PROXY\<close> still hold the proxy afterwards.
\<close>

theorem proxy_variables_stay_after_failure:
  "HTTPS_PROXY (snd (sendToLoggly (\<lambda>n. Responds 500 txt) (with_proxy w) data tgs))
     = Some (lit ''http://proxy.example.com:8080'')
   \<and> HTTP_PROXY (snd (sendToLoggly (\<lambda>n. Responds 500 txt) (with_proxy w) data tgs))
     = Some (lit ''http://proxy.example.com:8080'')
   \<and> HTTPS_PROXY (snd (sendToLoggly (\<lambda>n. Rejects e) (with_proxy w) data tgs))
     = Some (lit ''http://proxy.example.com:8080'')
   \<and> HTTP_PROXY (snd (sendToLoggly (\<lambda>n. Rejects e) (with_proxy w) data tgs))
     = Some (lit ''http://proxy.example.com:8080'')"
  by (simp add: sendToLoggly_def sendToLoggly_begin_def sendToLoggly_end_def with_proxy_def
      proxy_configured_def emit_def)

section \<open>The callback as second argument\<close>

text \<open>
  Claim C10. In \<open>log(data, f)\<close> with a function \<open>f\<close> and no third argument, the first statement
  of \<open>log\<close> makes \<open>f\<close> the callback and leaves no tags. So the call is \<open>log(data, undefined, f)\<close>:
  the same result, state, effects and suspended send, before and after the send settles, for
  every platform, transport and state. And \<open>f\<close> is what \<open>log\<close> calls: with the authentication
  error when the token is invalid; with the wrapped error when formatting throws; with
  \<open>(null, null)\<close> after queueing in bulk mode; and in immediate mode the send that \<open>log\<close> starts
  carries no additional tags and is owned by the callback \<open>f\<close>.
\<close>

theorem log_callback_as_second_argument:
  "resolve_arguments (Tags_function f) None = (Tags_undefined, Some f)
   \<and> log_sync P w data (Tags_function f) None = log_sync P w data Tags_undefined (Some f)
   \<and> log T P w data (Tags_function f) None = log T P w data Tags_undefined (Some f)
   \<and> log_sync P w data (Tags_function f) None
       = (if \<not> isTokenValid w
          then (Inr (),
                emit (Invoke f (Some (Error (lit ''Invalid token - authentication failed''))) None) w,
                None)
          else case format_payload P (config w) data of
                 Inl error \<Rightarrow> (Inr (), emit (Invoke f (Some (unspecified_error error)) None) w, None)
               | Inr formatted \<Rightarrow>
                   let truncated = truncateLargeMessage formatted;
                       w1 = truncation_warning w truncated
                   in if isBulk (config w)
                      then (Inr (),
                            emit (Invoke f None None) (fst (addToBatchQueue w1 (message truncated))),
                            snd (addToBatchQueue w1 (message truncated)))
                      else (Inr (), sendToLoggly_begin w1 (message truncated) (Some []),
                            Some \<lparr>p_owner = Owner_log (Some f), p_data = message truncated,
                                   p_tags = Some [], p_eventId = None, p_fetch = fetches w1\<rparr>))"
  by (simp add: log_def log_sync_def resolve_arguments_def invoke_def tags_of_def Let_def
      split: sum.splits prod.splits)

theorem log_callback_as_second_argument_witness:
  "resolve_arguments (Tags_function 7) None = (Tags_undefined, Some 7)
   \<and> \<not> isTokenValid tripped_client
   \<and> trace (fst (snd (log_sync sample_platform tripped_client (Text (lit ''a=1''))
                         (Tags_function 7) None)))
       = [Invoke 7 (Some (Error (lit ''Invalid token - authentication failed''))) None]
   \<and> trace (fst (snd (log_sync sample_platform (fresh_client json_config) Self_reference
                         (Tags_function 7) None)))
       = [Invoke 7 (Some (unspecified_error (Error circular_message))) None]
   \<and> trace (fst (snd (log_sync sample_platform (fresh_client default_config) (Text (lit ''a=1''))
                         (Tags_function 7) None)))
       = [Invoke 7 None None]
   \<and> batchQueue (fst (snd (log_sync sample_platform (fresh_client default_config)
                              (Text (lit ''a=1'')) (Tags_function 7) None)))
       = [lit ''a=1'']
   \<and> log_sync sample_platform immediate_client (Text (lit ''a=1'')) (Tags_function 7) None
       = (Inr (), sendToLoggly_begin immediate_client (lit ''a=1'') (Some []),
          Some \<lparr>p_owner = Owner_log (Some 7), p_data = lit ''a=1'', p_tags = Some [],
                 p_eventId = None, p_fetch = 0\<rparr>)
   \<and> trace (snd (log always_ok sample_platform immediate_client (Text (lit ''a=1''))
                    (Tags_function 7) None))
       = [Fetch (build_request (config immediate_client) (lit ''a=1'') (Some [])),
          Emit_log (Log_body (lit ''success'')), Invoke 7 None (Some (lit ''success''))]"
proof -
  note f = immediate_client_facts
  have invalid: "trace (fst (snd (log_sync sample_platform tripped_client (Text (lit ''a=1''))
                         (Tags_function 7) None)))
       = [Invoke 7 (Some (Error (lit ''Invalid token - authentication failed''))) None]"
    using log_callback_as_second_argument
            [where f = 7 and T = always_ok and P = sample_platform and w = tripped_client
               and data = "Text (lit ''a=1'')",
             THEN conjunct2, THEN conjunct2, THEN conjunct2]
    by (simp add: tripped_client_def fresh_client_def)
  have circ: "format_payload sample_platform (config (fresh_client json_config)) Self_reference
                = Inl (Error circular_message)"
    by (simp add: format_payload_def formatLogData_def sample_platform_def json_config_def
        default_config_def fresh_client_def TypeError_def)
  have thrown: "trace (fst (snd (log_sync sample_platform (fresh_client json_config) Self_reference
                         (Tags_function 7) None)))
       = [Invoke 7 (Some (unspecified_error (Error circular_message))) None]"
    using log_callback_as_second_argument
            [where f = 7 and T = always_ok and P = sample_platform and w = "fresh_client json_config"
               and data = Self_reference,
             THEN conjunct2, THEN conjunct2, THEN conjunct2]
    by (simp add: circ) (simp add: fresh_client_def)
  have fmt: "format_payload sample_platform (config (fresh_client default_config))
               (Text (lit ''a=1'')) = Inr (lit ''a=1'')"
    by (simp add: format_payload_def formatLogData_def sample_platform_def default_config_def
        fresh_client_def)
  have queued: "log_sync sample_platform (fresh_client default_config) (Text (lit ''a=1''))
                  (Tags_function 7) None
       = (Inr (),
          emit (Invoke 7 None None)
            ((fresh_client default_config)
               \<lparr>batchQueue := [lit ''a=1''], batchTimer := Some (Timeout 5000)\<rparr>),
          None)"
    using log_callback_as_second_argument
            [where f = 7 and T = always_ok and P = sample_platform and w = "fresh_client default_config"
               and data = "Text (lit ''a=1'')",
             THEN conjunct2, THEN conjunct2, THEN conjunct2]
    by (simp add: fmt f(4) truncation_warning_def addToBatchQueue_def Let_def)
       (simp add: fresh_client_def default_config_def)
  have started: "log_sync sample_platform immediate_client (Text (lit ''a=1'')) (Tags_function 7) None
       = (Inr (), sendToLoggly_begin immediate_client (lit ''a=1'') (Some []),
          Some \<lparr>p_owner = Owner_log (Some 7), p_data = lit ''a=1'', p_tags = Some [],
                 p_eventId = None, p_fetch = 0\<rparr>)"
    using log_callback_as_second_argument
            [where f = 7 and T = always_ok and P = sample_platform and w = immediate_client
               and data = "Text (lit ''a=1'')",
             THEN conjunct2, THEN conjunct2, THEN conjunct2]
    by (simp add: f truncation_warning_def) (simp add: immediate_client_def fresh_client_def)
  have sent: "trace (snd (log always_ok sample_platform immediate_client (Text (lit ''a=1''))
                    (Tags_function 7) None))
       = [Fetch (build_request (config immediate_client) (lit ''a=1'') (Some [])),
          Emit_log (Log_body (lit ''success'')), Invoke 7 None (Some (lit ''success''))]"
    using immediate_send(1)
    by (simp add: log_def started settle_def sendWithRetry_def invoke_def f(5))
       (simp add: immediate_client_def fresh_client_def invoke_def)
  show ?thesis
    using invalid thrown queued started sent
    by (simp add: resolve_arguments_def tripped_client_def fresh_client_def)
qed

end
